theory Spec2Isabelle
  imports Complex_Main "HOL-Library.Monad_Syntax"
begin

unbundle bit_operations_syntax

section \<open>The GEOM vdev backend of ZFS (vdev_geom.c)\<close>

text \<open>
  A shallow embedding of \<^verbatim>\<open>sys/cddl/contrib/opensolaris/uts/common/fs/zfs/vdev_geom.c\<close>.
  C structures are records, pointers are indices into an explicit store (so that two
  vdevs can share one consumer, as the attach path allows), and every function takes
  the store and returns the updated one.  A function result \<open>None\<close> means that the call
  does not return normally: it loops forever, divides by zero, overflows an \<^verbatim>\<open>off_t\<close>,
  fails an \<^verbatim>\<open>ASSERT\<close> or follows a dangling or null pointer.
\<close>

subsection \<open>Constants and enumerations\<close>

type_synonym errno = int

definition ENOENT :: errno where "ENOENT = 2"
definition EIO :: errno where "EIO = 5"
definition ENXIO :: errno where "ENXIO = 6"
definition EINVAL :: errno where "EINVAL = 22"
definition ENOTSUP :: errno where "ENOTSUP = 45"

definition FWRITE :: nat where "FWRITE = 2"

definition ZPOOL_CONFIG_POOL_GUID :: string where "ZPOOL_CONFIG_POOL_GUID = ''pool_guid''"
definition ZPOOL_CONFIG_GUID :: string where "ZPOOL_CONFIG_GUID = ''guid''"

datatype zio_type =
  ZIO_TYPE_NULL | ZIO_TYPE_READ | ZIO_TYPE_WRITE | ZIO_TYPE_FREE | ZIO_TYPE_CLAIM | ZIO_TYPE_IOCTL

datatype ioctl_cmd = DKIOCFLUSHWRITECACHE | DKIOCTRIM | DKIOC_OTHER nat

datatype bio_cmd = BIO_UNSET | BIO_READ | BIO_WRITE | BIO_DELETE | BIO_FLUSH

datatype pipeline = ZIO_PIPELINE_CONTINUE | ZIO_PIPELINE_STOP

datatype vdev_aux = VDEV_AUX_NONE | VDEV_AUX_OPEN_FAILED | VDEV_AUX_BAD_LABEL | VDEV_AUX_OTHER nat

datatype vdev_state =
  VDEV_STATE_UNKNOWN | VDEV_STATE_CLOSED | VDEV_STATE_OFFLINE | VDEV_STATE_REMOVED |
  VDEV_STATE_CANT_OPEN | VDEV_STATE_FAULTED | VDEV_STATE_DEGRADED | VDEV_STATE_HEALTHY

datatype spa_load_state =
  SPA_LOAD_NONE | SPA_LOAD_OPEN | SPA_LOAD_IMPORT | SPA_LOAD_TRYIMPORT | SPA_LOAD_RECOVER |
  SPA_LOAD_ERROR

datatype spa_async = SPA_ASYNC_REMOVE | SPA_ASYNC_CONFIG_UPDATE

subsection \<open>Structures\<close>

text \<open>The fields of \<^verbatim>\<open>spa_t\<close> that the file reads.  The file never writes to a pool.\<close>

record spa_t =
  spa_guid :: nat
  spa_load_state :: spa_load_state
  spa_splitting_newspa :: bool
  spa_mode :: nat

text \<open>
  The fields of \<^verbatim>\<open>vdev_t\<close> that the file uses.  \<open>vdev_tsd\<close> is the handle: the
  consumer the vdev is bound to, or \<open>None\<close> for the null pointer.  \<open>vs_aux\<close> is
  \<^verbatim>\<open>vdev_stat.vs_aux\<close>.
\<close>

record vdev_t =
  vdev_spa :: spa_t
  vdev_guid :: nat
  vdev_path :: "string option"
  vdev_physpath :: "string option"
  vdev_tsd :: "nat option"
  vs_aux :: vdev_aux
  vdev_prevstate :: vdev_state
  vdev_nowritecache :: bool
  vdev_notrim :: bool
  vdev_remove_wanted :: bool
  vdev_delayed_close :: bool

record zio_t =
  io_type :: zio_type
  io_cmd :: ioctl_cmd
  io_vd :: nat
  io_spa :: spa_t
  io_data :: int
  io_offset :: int
  io_size :: int
  io_error :: errno

text \<open>
  \<^verbatim>\<open>struct bio\<close>.  \<open>bio_ordered\<close> is the \<^verbatim>\<open>BIO_ORDERED\<close> bit of \<^verbatim>\<open>bio_flags\<close>,
  \<open>bio_done\<close> tells whether the completion callback \<^verbatim>\<open>vdev_geom_io_intr\<close> is set,
  \<open>bio_data\<close> is the buffer address (\<open>None\<close> for \<^verbatim>\<open>NULL\<close>) and \<open>bio_to\<close> the index of
  the provider the request went to.
\<close>

record bio =
  bio_cmd :: bio_cmd
  bio_ordered :: bool
  bio_data :: "int option"
  bio_offset :: int
  bio_length :: int
  bio_done :: bool
  bio_caller1 :: "zio_t option"
  bio_error :: errno
  bio_resid :: int
  bio_to :: "nat option"

text \<open>A name/value pair of an unpacked label: only 64-bit unsigned values carry a guid.\<close>

datatype nvvalue = DATA_TYPE_UINT64 nat | DATA_TYPE_OTHER

type_synonym nvlist_t = "(string \<times> nvvalue) list"

text \<open>
  \<^verbatim>\<open>struct g_provider\<close>, with what the device answers: \<open>pp_physpath\<close> is the value of
  the attribute \<^verbatim>\<open>GEOM::physpath\<close> (\<open>None\<close> when \<^verbatim>\<open>g_io_getattr\<close> fails) and
  \<open>pp_label l\<close> is what \<^verbatim>\<open>nvlist_unpack\<close> makes of label \<open>l\<close> once it has been
  read (\<open>None\<close> when unpacking fails).  \<open>gp_flags_wither\<close> is the \<^verbatim>\<open>G_GEOM_WITHER\<close> flag
  of the geom that owns the provider.
\<close>

record g_provider =
  pp_name :: string
  pp_sectorsize :: nat
  pp_mediasize :: nat
  pp_error :: errno
  pp_flags_wither :: bool
  gp_flags_wither :: bool
  pp_physpath :: "string option"
  pp_label :: "nat \<Rightarrow> nvlist_t option"

text \<open>
  \<^verbatim>\<open>struct g_consumer\<close>: the provider it is attached to, the back reference
  \<^verbatim>\<open>private\<close> to a vdev, and the three access counts.
\<close>

record g_consumer =
  cp_provider :: "nat option"
  cp_private :: "nat option"
  acr :: int
  acw :: int
  ace :: int

text \<open>What the file's debug log and warnings report, one constructor for each call.\<close>

datatype zfs_log =
  LOG_attaching | LOG_created_geom_and_consumer | LOG_found_consumer | LOG_created_consumer |
  LOG_used_existing_consumer | LOG_closing_access | LOG_destroyed_consumer | LOG_destroyed_geom |
  LOG_reading_guids | LOG_guids_are | LOG_searching_by_guids | LOG_attach_by_guids_succeeded |
  LOG_search_by_guids_failed | LOG_found_provider_by_name | LOG_guid_mismatch | LOG_guids_match |
  LOG_provider_not_found | LOG_unsupported_sectorsize | WARNING_unable_to_attach |
  WARNING_unable_to_open_for_writing errno

text \<open>The calls that leave the file, in the order they are made.\<close>

datatype event =
    ZFS_LOG zfs_log
  | G_IO_REQUEST nat bio
  | SPA_ASYNC_REQUEST spa_t spa_async
  | ZFS_POST_REMOVE spa_t nat
  | ZIO_INTERRUPT zio_t
  | TSLEEP

text \<open>The cells \<^verbatim>\<open>*psize\<close>, \<^verbatim>\<open>*max_psize\<close> and \<^verbatim>\<open>*ashift\<close> that open writes through.\<close>

record open_out =
  out_psize :: nat
  out_max_psize :: nat
  out_ashift :: nat

text \<open>
  The store.  \<open>w_vdev\<close> holds the vdevs of the pool manager; \<open>w_provider\<close> lists the
  providers of all other GEOM classes in the order the scan walks them; \<open>w_consumer\<close>
  holds the live consumers; \<open>w_geom\<close> is the consumer list of the geom named
  \<^verbatim>\<open>zfs::vdev\<close> that is not withering (\<open>None\<close> when there is none); \<open>w_next\<close> is the
  next fresh consumer.  \<open>w_access\<close> and \<open>w_biowait\<close> are the device layer's answers to
  the coming acquisitions (\<^verbatim>\<open>g_attach\<close>, \<^verbatim>\<open>g_access\<close> asking for more) and to the
  coming synchronous transfers, in order; once a list is used up the answer is 0.
  The three tunables are global variables.
\<close>

record world =
  w_vdev :: "nat \<Rightarrow> vdev_t"
  w_out :: "nat \<Rightarrow> open_out"
  w_provider :: "g_provider list"
  w_consumer :: "nat \<Rightarrow> g_consumer option"
  w_geom :: "nat list option"
  w_next :: nat
  w_access :: "errno list"
  w_biowait :: "errno list"
  w_trace :: "event list"
  zfs_nocacheflush :: bool
  vdev_geom_bio_flush_disable :: bool
  vdev_geom_bio_delete_disable :: bool

text \<open>
  What the headers and the rest of the kernel fix: the constants, and the predicate
  \<^verbatim>\<open>vdev_readable\<close> of the pool manager.
\<close>

record kparams =
  MAXPHYS :: nat
  VDEV_PAD_SIZE :: nat
  SPA_MINBLOCKSIZE :: nat
  VDEV_LABELS :: nat
  sizeof_vdev_label_t :: nat
  vdev_readable :: "vdev_t \<Rightarrow> bool"

subsection \<open>The GEOM primitives\<close>

text \<open>
  GEOM itself is not part of the file.  Its primitives are modelled by their bookkeeping:
  whether an acquisition succeeds is read from \<open>w_access\<close>, so a theorem about all
  stores covers every behaviour of the device layer.  The assertions inside GEOM are
  not modelled, but a call on a consumer that is no longer in the store does not return.
\<close>

definition nth_opt :: "'a list \<Rightarrow> nat \<Rightarrow> 'a option" where
  "nth_opt xs i = (if i < length xs then Some (xs ! i) else None)"

definition emit :: "event \<Rightarrow> world \<Rightarrow> world" where
  "emit e w = w\<lparr>w_trace := w_trace w @ [e]\<rparr>"

definition upd_vdev :: "nat \<Rightarrow> (vdev_t \<Rightarrow> vdev_t) \<Rightarrow> world \<Rightarrow> world" where
  "upd_vdev vd f w = w\<lparr>w_vdev := (w_vdev w)(vd := f (w_vdev w vd))\<rparr>"

definition upd_consumer :: "nat \<Rightarrow> (g_consumer \<Rightarrow> g_consumer) \<Rightarrow> world \<Rightarrow> world" where
  "upd_consumer cp f w = w\<lparr>w_consumer := (w_consumer w)(cp := map_option f (w_consumer w cp))\<rparr>"

text \<open>The provider a consumer is attached to: \<^verbatim>\<open>cp->provider\<close>, dereferenced.\<close>

definition provider_of :: "nat \<Rightarrow> world \<Rightarrow> g_provider option" where
  "provider_of cp w = do {
     c \<leftarrow> w_consumer w cp;
     pp \<leftarrow> cp_provider c;
     nth_opt (w_provider w) pp
   }"

definition next_answer :: "errno list \<Rightarrow> errno \<times> errno list" where
  "next_answer es = (case es of [] \<Rightarrow> (0, []) | e # es' \<Rightarrow> (e, es'))"

datatype geom_ref = GEOM_VDEV | GEOM_TASTE

definition g_new_geomf :: "world \<Rightarrow> world" where
  "g_new_geomf w = w\<lparr>w_geom := Some []\<rparr>"

definition g_new_consumer :: "geom_ref \<Rightarrow> world \<Rightarrow> nat \<times> world" where
  "g_new_consumer gp w =
     (w_next w,
      w\<lparr>w_consumer := (w_consumer w)(w_next w \<mapsto>
           \<lparr>cp_provider = None, cp_private = None, acr = 0, acw = 0, ace = 0\<rparr>),
        w_geom := (case gp of GEOM_VDEV \<Rightarrow> map_option (\<lambda>cs. w_next w # cs) (w_geom w)
                   | GEOM_TASTE \<Rightarrow> w_geom w),
        w_next := Suc (w_next w)\<rparr>)"

definition g_attach :: "nat \<Rightarrow> nat \<Rightarrow> world \<Rightarrow> (errno \<times> world) option" where
  "g_attach cp pp w = do {
     _ \<leftarrow> w_consumer w cp;
     let (e, es) = next_answer (w_access w);
     let w = w\<lparr>w_access := es\<rparr>;
     if e \<noteq> 0 then Some (e, w)
     else Some (0, upd_consumer cp (\<lambda>c. c\<lparr>cp_provider := Some pp\<rparr>) w)
   }"

definition g_access :: "nat \<Rightarrow> int \<Rightarrow> int \<Rightarrow> int \<Rightarrow> world \<Rightarrow> (errno \<times> world) option" where
  "g_access cp dr dw de w = do {
     c \<leftarrow> w_consumer w cp;
     _ \<leftarrow> cp_provider c;
     let (e, es) = (if 0 < dr \<or> 0 < dw \<or> 0 < de then next_answer (w_access w)
                    else (0, w_access w));
     let w = w\<lparr>w_access := es\<rparr>;
     if e \<noteq> 0 then Some (e, w)
     else Some (0, upd_consumer cp
            (\<lambda>c. c\<lparr>acr := acr c + dr, acw := acw c + dw, ace := ace c + de\<rparr>) w)
   }"

definition g_detach :: "nat \<Rightarrow> world \<Rightarrow> world" where
  "g_detach cp w = upd_consumer cp (\<lambda>c. c\<lparr>cp_provider := None\<rparr>) w"

definition g_destroy_consumer :: "nat \<Rightarrow> world \<Rightarrow> world" where
  "g_destroy_consumer cp w =
     w\<lparr>w_consumer := (w_consumer w)(cp := None),
       w_geom := map_option (removeAll cp) (w_geom w)\<rparr>"

definition g_wither_geom :: "world \<Rightarrow> world" where
  "g_wither_geom w =
     w\<lparr>w_consumer := (\<lambda>cp. if cp \<in> set (case w_geom w of None \<Rightarrow> [] | Some cs \<Rightarrow> cs)
                            then None else w_consumer w cp),
       w_geom := None\<rparr>"

definition g_provider_by_name :: "string \<Rightarrow> world \<Rightarrow> nat option" where
  "g_provider_by_name name w =
     find (\<lambda>i. pp_name (w_provider w ! i) = name) [0..<length (w_provider w)]"

definition g_io_request :: "bio \<Rightarrow> nat \<Rightarrow> world \<Rightarrow> world option" where
  "g_io_request bp cp w = do {
     c \<leftarrow> w_consumer w cp;
     pp \<leftarrow> cp_provider c;
     Some (emit (G_IO_REQUEST cp (bp\<lparr>bio_to := Some pp\<rparr>)) w)
   }"

definition biowait :: "world \<Rightarrow> errno \<times> world" where
  "biowait w = (let (e, es) = next_answer (w_biowait w) in (e, w\<lparr>w_biowait := es\<rparr>))"

text \<open>\<^verbatim>\<open>g_alloc_bio\<close> and \<^verbatim>\<open>bzero\<close>: a request with every field zero.\<close>

definition g_alloc_bio :: bio where
  "g_alloc_bio = \<lparr>bio_cmd = BIO_UNSET, bio_ordered = False, bio_data = None, bio_offset = 0,
     bio_length = 0, bio_done = False, bio_caller1 = None, bio_error = 0, bio_resid = 0,
     bio_to = None\<rparr>"

text \<open>
  \<^verbatim>\<open>off_t\<close> is a signed 64-bit integer.  A signed addition or subtraction whose result
  does not fit is undefined in C: a call that gets there does not return in the model.
  \<open>off_t_of_uint64\<close> is the conversion of a \<^verbatim>\<open>uint64_t\<close> to \<^verbatim>\<open>off_t\<close>, which keeps the
  64 bits.
\<close>

definition OFF_MAX :: int where
  "OFF_MAX = 9223372036854775807"

definition off_t_ok :: "int \<Rightarrow> bool" where
  "off_t_ok x \<longleftrightarrow> - OFF_MAX - 1 \<le> x \<and> x \<le> OFF_MAX"

definition off_t_of_uint64 :: "int \<Rightarrow> int" where
  "off_t_of_uint64 x =
     (let y = x mod 18446744073709551616
      in if y \<le> OFF_MAX then y else y - 18446744073709551616)"

definition ISP2 :: "nat \<Rightarrow> bool" where
  "ISP2 x = (x AND (x - 1) = 0)"

definition P2ALIGN :: "nat \<Rightarrow> nat \<Rightarrow> nat" where
  "P2ALIGN x a = x - x mod a"

text \<open>
  Modelled from the spec: \<^verbatim>\<open>highbit\<close> is not in the file.  The spec takes the ashift to
  be the base-2 logarithm of the block size, and the file computes it as
  \<^verbatim>\<open>highbit(x) - 1\<close>, so \<open>highbit x\<close> is the position of the highest bit set in \<open>x\<close>,
  counted from 1, and 0 when no bit is set.
\<close>

fun highbit :: "nat \<Rightarrow> nat" where
  "highbit n = (if n = 0 then 0 else Suc (highbit (n div 2)))"

declare highbit.simps [simp del]

text \<open>
  \<^verbatim>\<open>vdev_label_offset\<close> of the label code: the first half of the labels is at the front
  of the device, the second half at its end.
\<close>

definition vdev_label_offset :: "kparams \<Rightarrow> nat \<Rightarrow> nat \<Rightarrow> int \<Rightarrow> int" where
  "vdev_label_offset K psize l offset =
     offset + int l * int (sizeof_vdev_label_t K) +
     (if l < VDEV_LABELS K div 2 then 0
      else int psize - int (VDEV_LABELS K) * int (sizeof_vdev_label_t K))"

subsection \<open>Topology events, attach and detach\<close>

definition vdev_geom_orphan :: "nat \<Rightarrow> world \<Rightarrow> world option" where
  "vdev_geom_orphan cp w = do {
     c \<leftarrow> w_consumer w cp;
     case cp_private c of
       None \<Rightarrow> Some w
     | Some vd \<Rightarrow>
         let w = upd_vdev vd (\<lambda>v. v\<lparr>vdev_remove_wanted := True\<rparr>) w
         in Some (emit (SPA_ASYNC_REQUEST (vdev_spa (w_vdev w vd)) SPA_ASYNC_REMOVE) w)
   }"

definition vdev_geom_attrchanged :: "nat \<Rightarrow> string \<Rightarrow> world \<Rightarrow> world option" where
  "vdev_geom_attrchanged cp attr w =
     (if attr \<noteq> ''GEOM::physpath'' then Some w
      else do {
        (error, w) \<leftarrow> g_access cp 1 0 0 w;
        if error \<noteq> 0 then Some w
        else do {
          c \<leftarrow> w_consumer w cp;
          vd \<leftarrow> cp_private c;
          let spa = vdev_spa (w_vdev w vd);
          pp \<leftarrow> provider_of cp w;
          (_, w) \<leftarrow> g_access cp (- 1) 0 0 w;
          case pp_physpath pp of
            None \<Rightarrow> Some w
          | Some physpath \<Rightarrow>
              let w = upd_vdev vd (\<lambda>v. v\<lparr>vdev_physpath := Some physpath\<rparr>) w
              in Some (emit (SPA_ASYNC_REQUEST spa SPA_ASYNC_CONFIG_UPDATE) w)
        }
      })"

text \<open>
  The three ways \<^verbatim>\<open>vdev_geom_attach\<close> gets its consumer: a new geom with a new consumer,
  a new consumer in the geom that exists, or the consumer that is already attached to
  the provider.
\<close>

definition vdev_geom_attach_consumer :: "nat \<Rightarrow> world \<Rightarrow> (nat option \<times> world) option" where
  "vdev_geom_attach_consumer pp w =
     (case w_geom w of
        None \<Rightarrow> do {
          let w = g_new_geomf w;
          let (cp, w) = g_new_consumer GEOM_VDEV w;
          (error, w) \<leftarrow> g_attach cp pp w;
          if error \<noteq> 0 then Some (None, g_wither_geom w)
          else do {
            (error, w) \<leftarrow> g_access cp 1 0 1 w;
            if error \<noteq> 0 then Some (None, g_wither_geom w)
            else Some (Some cp, emit (ZFS_LOG LOG_created_geom_and_consumer) w)
          }
        }
      | Some cs \<Rightarrow>
          (case find (\<lambda>cp. case w_consumer w cp of None \<Rightarrow> False
                                 | Some c \<Rightarrow> cp_provider c = Some pp) cs of
             None \<Rightarrow> do {
               let (cp, w) = g_new_consumer GEOM_VDEV w;
               (error, w) \<leftarrow> g_attach cp pp w;
               if error \<noteq> 0 then Some (None, g_destroy_consumer cp w)
               else do {
                 (error, w) \<leftarrow> g_access cp 1 0 1 w;
                 if error \<noteq> 0 then Some (None, g_destroy_consumer cp (g_detach cp w))
                 else Some (Some cp, emit (ZFS_LOG LOG_created_consumer) w)
               }
             }
           | Some cp \<Rightarrow> do {
               let w = emit (ZFS_LOG LOG_found_consumer) w;
               (error, w) \<leftarrow> g_access cp 1 0 1 w;
               if error \<noteq> 0 then Some (None, w)
               else Some (Some cp, emit (ZFS_LOG LOG_used_existing_consumer) w)
             }))"

definition vdev_geom_attach :: "nat \<Rightarrow> nat \<Rightarrow> world \<Rightarrow> (nat option \<times> world) option" where
  "vdev_geom_attach pp vd w = do {
     let w = emit (ZFS_LOG LOG_attaching) w;
     (r, w) \<leftarrow> vdev_geom_attach_consumer pp w;
     case r of
       None \<Rightarrow> Some (None, w)
     | Some cp \<Rightarrow> do {
         let w = upd_consumer cp (\<lambda>c. c\<lparr>cp_private := Some vd\<rparr>) w;
         w \<leftarrow> vdev_geom_attrchanged cp ''GEOM::physpath'' w;
         Some (Some cp, w)
       }
   }"

definition vdev_geom_detach :: "nat \<Rightarrow> world \<Rightarrow> world option" where
  "vdev_geom_detach cp w = do {
     c \<leftarrow> w_consumer w cp;
     let w = emit (ZFS_LOG LOG_closing_access) w;
     let w = (case cp_private c of
                None \<Rightarrow> w
              | Some vd \<Rightarrow> upd_consumer cp (\<lambda>c. c\<lparr>cp_private := None\<rparr>)
                             (upd_vdev vd (\<lambda>v. v\<lparr>vdev_tsd := None\<rparr>) w));
     (_, w) \<leftarrow> g_access cp (- 1) 0 (- 1) w;
     c \<leftarrow> w_consumer w cp;
     w \<leftarrow> (if acr c = 0 \<and> ace c = 0 then do {
              let w = emit (ZFS_LOG LOG_destroyed_consumer) w;
              (_, w) \<leftarrow> (if 0 < acw c then g_access cp 0 (- acw c) 0 w else Some (0, w));
              Some (g_destroy_consumer cp (g_detach cp w))
            } else Some w);
     if w_geom w = Some [] then Some (g_wither_geom (emit (ZFS_LOG LOG_destroyed_geom) w))
     else Some w
   }"

subsection \<open>Reading the label\<close>

fun nvlist_get_guids_loop :: "nvlist_t \<Rightarrow> nat \<times> nat \<Rightarrow> nat \<times> nat" where
  "nvlist_get_guids_loop [] g = g"
| "nvlist_get_guids_loop ((name, val) # list) (pguid, vguid) =
     (case val of
        DATA_TYPE_OTHER \<Rightarrow> nvlist_get_guids_loop list (pguid, vguid)
      | DATA_TYPE_UINT64 x \<Rightarrow>
          let (pguid, vguid) =
                (if name = ZPOOL_CONFIG_POOL_GUID then (x, vguid)
                 else if name = ZPOOL_CONFIG_GUID then (pguid, x)
                 else (pguid, vguid))
          in if pguid \<noteq> 0 \<and> vguid \<noteq> 0 then (pguid, vguid)
             else nvlist_get_guids_loop list (pguid, vguid))"

definition nvlist_get_guids :: "nvlist_t \<Rightarrow> nat \<times> nat" where
  "nvlist_get_guids list = nvlist_get_guids_loop list (0, 0)"

text \<open>
  The loop of \<^verbatim>\<open>vdev_geom_io\<close>: \<open>offset\<close> is the end of the transfer, \<open>off\<close>, \<open>p\<close> and
  \<open>sz\<close> (the source's \<^verbatim>\<open>size\<close>) are the loop variables.  With \<open>maxio = 0\<close> and a device that answers 0 it does
  not end.  The increments \<^verbatim>\<open>off += maxio\<close> and \<^verbatim>\<open>size -= maxio\<close> are made after every
  chunk that succeeded, the last one too, and must fit an \<^verbatim>\<open>off_t\<close>.
\<close>

partial_function (option) vdev_geom_io_loop ::
  "nat \<Rightarrow> bio_cmd \<Rightarrow> int \<Rightarrow> int \<Rightarrow> int \<Rightarrow> int \<Rightarrow> int \<Rightarrow> errno \<Rightarrow> world \<Rightarrow> (errno \<times> world) option"
where
  "vdev_geom_io_loop cp cmd maxio offset off p sz error w =
     (if off < offset then
        (case g_io_request
                (g_alloc_bio\<lparr>bio_cmd := cmd, bio_done := False, bio_offset := off,
                   bio_length := min sz maxio, bio_data := Some p\<rparr>) cp w of
           None \<Rightarrow> None
         | Some w1 \<Rightarrow>
             (case biowait w1 of (error, w2) \<Rightarrow>
                if error \<noteq> 0 then Some (error, w2)
                else if off_t_ok (off + maxio) \<and> off_t_ok (sz - maxio)
                then vdev_geom_io_loop cp cmd maxio offset (off + maxio) (p + maxio)
                       (sz - maxio) error w2
                else None))
      else Some (error, w))"

definition vdev_geom_io ::
  "kparams \<Rightarrow> nat \<Rightarrow> bio_cmd \<Rightarrow> int \<Rightarrow> int \<Rightarrow> int \<Rightarrow> world \<Rightarrow> (errno \<times> world) option"
where
  "vdev_geom_io K cp cmd data offset sz w = do {
     pp \<leftarrow> provider_of cp w;
     if pp_sectorsize pp = 0 then None
     else if offset mod int (pp_sectorsize pp) \<noteq> 0 then None
     else if sz mod int (pp_sectorsize pp) \<noteq> 0 then None
     else if \<not> off_t_ok (offset + sz) then None
     else
       let maxio = int (MAXPHYS K - MAXPHYS K mod pp_sectorsize pp)
       in vdev_geom_io_loop cp cmd maxio (offset + sz) offset data sz 0 w
   }"

text \<open>
  The loop of \<^verbatim>\<open>vdev_geom_read_guids\<close> over the labels \<open>ls\<close> still to try; \<open>g\<close> holds
  \<^verbatim>\<open>*pguid\<close> and \<^verbatim>\<open>*vguid\<close>.  The label buffer is taken to be at address 0.
\<close>

fun vdev_geom_read_guids_loop ::
  "kparams \<Rightarrow> nat \<Rightarrow> g_provider \<Rightarrow> nat \<Rightarrow> int \<Rightarrow> nat list \<Rightarrow> nat \<times> nat \<Rightarrow> world
     \<Rightarrow> ((nat \<times> nat) \<times> world) option"
where
  "vdev_geom_read_guids_loop K cp pp psize sz [] g w = Some (g, w)"
| "vdev_geom_read_guids_loop K cp pp psize sz (l # ls) g w =
     (let offset = vdev_label_offset K psize l 0 in
      if offset mod int (pp_sectorsize pp) \<noteq> 0
      then vdev_geom_read_guids_loop K cp pp psize sz ls g w
      else
        (case vdev_geom_io K cp BIO_READ 0 offset sz w of
           None \<Rightarrow> None
         | Some (error, w) \<Rightarrow>
             if error \<noteq> 0 then vdev_geom_read_guids_loop K cp pp psize sz ls g w
             else
               (case pp_label pp l of
                  None \<Rightarrow> vdev_geom_read_guids_loop K cp pp psize sz ls g w
                | Some config \<Rightarrow>
                    let g = nvlist_get_guids config
                    in if fst g \<noteq> 0 \<and> snd g \<noteq> 0 then Some (g, w)
                       else vdev_geom_read_guids_loop K cp pp psize sz ls g w)))"

definition vdev_geom_read_guids :: "kparams \<Rightarrow> nat \<Rightarrow> world \<Rightarrow> ((nat \<times> nat) \<times> world) option" where
  "vdev_geom_read_guids K cp w = do {
     pp \<leftarrow> provider_of cp w;
     let w = emit (ZFS_LOG LOG_reading_guids) w;
     let psize = P2ALIGN (pp_mediasize pp) (sizeof_vdev_label_t K);
     if pp_sectorsize pp = 0 then None
     else do {
       let sz = int (sizeof_vdev_label_t K + pp_sectorsize pp
                     - ((sizeof_vdev_label_t K - 1) mod pp_sectorsize pp) - 1);
       (g, w) \<leftarrow> vdev_geom_read_guids_loop K cp pp psize sz [0..<VDEV_LABELS K] (0, 0) w;
       Some (g, if fst g \<noteq> 0 \<and> snd g \<noteq> 0 then emit (ZFS_LOG LOG_guids_are) w else w)
     }
   }"

subsection \<open>Finding the device\<close>

text \<open>
  The three nested loops of \<^verbatim>\<open>vdev_geom_attach_by_guids\<close> walk the providers \<open>pps\<close> of
  all classes but the file's own; \<open>zcp\<close> is the tasting consumer.
\<close>

fun vdev_geom_attach_by_guids_loop ::
  "kparams \<Rightarrow> nat \<Rightarrow> nat \<Rightarrow> nat list \<Rightarrow> world \<Rightarrow> (nat option \<times> world) option"
where
  "vdev_geom_attach_by_guids_loop K zcp vd [] w = Some (None, w)"
| "vdev_geom_attach_by_guids_loop K zcp vd (pp # pps) w =
     (case nth_opt (w_provider w) pp of
        None \<Rightarrow> None
      | Some p \<Rightarrow>
          if gp_flags_wither p \<or> pp_flags_wither p
          then vdev_geom_attach_by_guids_loop K zcp vd pps w
          else
            (case g_attach zcp pp w of
               None \<Rightarrow> None
             | Some (_, w) \<Rightarrow>
                 (case g_access zcp 1 0 0 w of
                    None \<Rightarrow> None
                  | Some (error, w) \<Rightarrow>
                      if error \<noteq> 0
                      then vdev_geom_attach_by_guids_loop K zcp vd pps (g_detach zcp w)
                      else
                        (case vdev_geom_read_guids K zcp w of
                           None \<Rightarrow> None
                         | Some ((pguid, vguid), w) \<Rightarrow>
                             (case g_access zcp (- 1) 0 0 w of
                                None \<Rightarrow> None
                              | Some (_, w) \<Rightarrow>
                                  let w = g_detach zcp w in
                                  if pguid \<noteq> spa_guid (vdev_spa (w_vdev w vd)) \<or>
                                     vguid \<noteq> vdev_guid (w_vdev w vd)
                                  then vdev_geom_attach_by_guids_loop K zcp vd pps w
                                  else
                                    (case vdev_geom_attach pp vd w of
                                       None \<Rightarrow> None
                                     | Some (None, w) \<Rightarrow>
                                         vdev_geom_attach_by_guids_loop K zcp vd pps
                                           (emit (ZFS_LOG WARNING_unable_to_attach) w)
                                     | Some (Some cp, w) \<Rightarrow> Some (Some cp, w)))))))"

definition vdev_geom_attach_by_guids :: "kparams \<Rightarrow> nat \<Rightarrow> world \<Rightarrow> (nat option \<times> world) option" where
  "vdev_geom_attach_by_guids K vd w = do {
     let (zcp, w) = g_new_consumer GEOM_TASTE w;
     (cp, w) \<leftarrow> vdev_geom_attach_by_guids_loop K zcp vd [0..<length (w_provider w)] w;
     Some (cp, g_destroy_consumer zcp w)
   }"

definition vdev_geom_open_by_guids :: "kparams \<Rightarrow> nat \<Rightarrow> world \<Rightarrow> (nat option \<times> world) option" where
  "vdev_geom_open_by_guids K vd w = do {
     let w = emit (ZFS_LOG LOG_searching_by_guids) w;
     (cp, w) \<leftarrow> vdev_geom_attach_by_guids K vd w;
     case cp of
       Some c \<Rightarrow> do {
         pp \<leftarrow> provider_of c w;
         let w = upd_vdev vd (\<lambda>v. v\<lparr>vdev_path := Some (''/dev/'' @ pp_name pp)\<rparr>) w;
         Some (cp, emit (ZFS_LOG LOG_attach_by_guids_succeeded) w)
       }
     | None \<Rightarrow> Some (cp, emit (ZFS_LOG LOG_search_by_guids_failed) w)
   }"

definition vdev_geom_open_by_path ::
  "kparams \<Rightarrow> nat \<Rightarrow> bool \<Rightarrow> world \<Rightarrow> (nat option \<times> world) option"
where
  "vdev_geom_open_by_path K vd check_guid w = do {
     path \<leftarrow> vdev_path (w_vdev w vd);
     if length path < 5 then None
     else
       (case g_provider_by_name (drop 5 path) w of
          None \<Rightarrow> Some (None, w)
        | Some pp \<Rightarrow> do {
            let w = emit (ZFS_LOG LOG_found_provider_by_name) w;
            (r, w) \<leftarrow> vdev_geom_attach pp vd w;
            case r of
              None \<Rightarrow> Some (None, w)
            | Some cp \<Rightarrow> do {
                p \<leftarrow> nth_opt (w_provider w) pp;
                if check_guid \<and> ISP2 (pp_sectorsize p) \<and> pp_sectorsize p \<le> VDEV_PAD_SIZE K
                then do {
                  ((pguid, vguid), w) \<leftarrow> vdev_geom_read_guids K cp w;
                  if pguid \<noteq> spa_guid (vdev_spa (w_vdev w vd)) \<or> vguid \<noteq> vdev_guid (w_vdev w vd)
                  then do {
                    w \<leftarrow> vdev_geom_detach cp w;
                    Some (None, emit (ZFS_LOG LOG_guid_mismatch) w)
                  }
                  else Some (Some cp, emit (ZFS_LOG LOG_guids_match) w)
                }
                else Some (Some cp, w)
              }
          })
   }"

subsection \<open>Open and close\<close>

text \<open>
  The loop that asks for the write claim: \<open>n\<close> attempts are left, \<open>error\<close> is the
  variable of that name.
\<close>

fun vdev_geom_open_retry :: "nat \<Rightarrow> nat \<Rightarrow> errno \<Rightarrow> world \<Rightarrow> (errno \<times> world) option" where
  "vdev_geom_open_retry 0 cp error w = Some (error, w)"
| "vdev_geom_open_retry (Suc n) cp error w =
     (case g_access cp 0 1 0 w of
        None \<Rightarrow> None
      | Some (error, w) \<Rightarrow>
          if error = 0 then Some (error, w)
          else vdev_geom_open_retry n cp error (emit TSLEEP w))"

text \<open>
  Lines 519 to 551 of \<^verbatim>\<open>vdev_geom_open\<close>: the stored path with the guids checked, then
  the scan of all providers, then, where the policy allows it, the stored path with the
  guids ignored.
\<close>

definition vdev_geom_open_find :: "kparams \<Rightarrow> nat \<Rightarrow> world \<Rightarrow> (nat option \<times> world) option" where
  "vdev_geom_open_find K vd w = do {
     (cp, w) \<leftarrow> vdev_geom_open_by_path K vd True w;
     (cp, w) \<leftarrow> (if cp = None then vdev_geom_open_by_guids K vd w else Some (cp, w));
     if cp = None \<and>
        ((vdev_prevstate (w_vdev w vd) = VDEV_STATE_UNKNOWN \<and>
          spa_load_state (vdev_spa (w_vdev w vd)) = SPA_LOAD_NONE) \<or>
         spa_splitting_newspa (vdev_spa (w_vdev w vd)))
     then vdev_geom_open_by_path K vd False w
     else Some (cp, w)
   }"

text \<open>
  Lines 553 to 580: the checks on the consumer that was found.  The result is the
  consumer that is kept and the variable \<open>error\<close>.
\<close>

definition vdev_geom_open_check ::
  "kparams \<Rightarrow> nat \<Rightarrow> nat option \<Rightarrow> world \<Rightarrow> ((nat option \<times> errno) \<times> world) option"
where
  "vdev_geom_open_check K vd cp w =
     (case cp of
        None \<Rightarrow> Some ((None, ENOENT), emit (ZFS_LOG LOG_provider_not_found) w)
      | Some c \<Rightarrow> do {
          pp \<leftarrow> provider_of c w;
          co \<leftarrow> w_consumer w c;
          if VDEV_PAD_SIZE K < pp_sectorsize pp \<or> \<not> ISP2 (pp_sectorsize pp) then do {
            w \<leftarrow> vdev_geom_detach c (emit (ZFS_LOG LOG_unsupported_sectorsize) w);
            Some ((None, EINVAL), w)
          }
          else if acw co = 0 \<and> spa_mode (vdev_spa (w_vdev w vd)) AND FWRITE \<noteq> 0 then do {
            (error, w) \<leftarrow> vdev_geom_open_retry 5 c 0 w;
            if error \<noteq> 0 then do {
              w \<leftarrow> vdev_geom_detach c (emit (ZFS_LOG (WARNING_unable_to_open_for_writing error)) w);
              Some ((None, error), w)
            }
            else Some ((Some c, error), w)
          }
          else Some ((Some c, 0), w)
        })"

text \<open>
  \<^verbatim>\<open>highbit(MAX(pp->sectorsize, SPA_MINBLOCKSIZE)) - 1\<close>, an \<^verbatim>\<open>int\<close> stored into a
  \<^verbatim>\<open>uint64_t\<close>.
\<close>

definition ashift_of :: "kparams \<Rightarrow> nat \<Rightarrow> nat" where
  "ashift_of K sectorsize =
     nat ((int (highbit (max sectorsize (SPA_MINBLOCKSIZE K))) - 1) mod 2 ^ 64)"

definition vdev_geom_open :: "kparams \<Rightarrow> nat \<Rightarrow> world \<Rightarrow> (errno \<times> world) option" where
  "vdev_geom_open K vd w =
     (if (case vdev_path (w_vdev w vd) of None \<Rightarrow> True | Some path \<Rightarrow> path = [] \<or> hd path \<noteq> CHR ''/'')
      then Some (EINVAL, upd_vdev vd (\<lambda>v. v\<lparr>vs_aux := VDEV_AUX_BAD_LABEL\<rparr>) w)
      else do {
        let w = upd_vdev vd (\<lambda>v. v\<lparr>vdev_tsd := None\<rparr>) w;
        (cp, w) \<leftarrow> vdev_geom_open_find K vd w;
        ((cp, error), w) \<leftarrow> vdev_geom_open_check K vd cp w;
        case cp of
          None \<Rightarrow> Some (error, upd_vdev vd (\<lambda>v. v\<lparr>vs_aux := VDEV_AUX_OPEN_FAILED\<rparr>) w)
        | Some c \<Rightarrow> do {
            pp \<leftarrow> provider_of c w;
            let w = upd_vdev vd (\<lambda>v. v\<lparr>vdev_tsd := Some c\<rparr>) w;
            let w = w\<lparr>w_out := (w_out w)(vd :=
                      \<lparr>out_psize = pp_mediasize pp, out_max_psize = pp_mediasize pp,
                       out_ashift = ashift_of K (pp_sectorsize pp)\<rparr>)\<rparr>;
            let w = upd_vdev vd (\<lambda>v. v\<lparr>vdev_nowritecache := False\<rparr>) w;
            Some (0, w)
          }
      })"

definition vdev_geom_close :: "nat \<Rightarrow> world \<Rightarrow> world option" where
  "vdev_geom_close vd w =
     (case vdev_tsd (w_vdev w vd) of
        None \<Rightarrow> Some w
      | Some cp \<Rightarrow> vdev_geom_detach cp w)"

subsection \<open>Submitting and completing I/O\<close>

text \<open>
  \<^verbatim>\<open>vdev_geom_io_intr\<close> in its three parts.  Lines 631 to 633: the error of the request
  is the error of the transfer, and a short transfer without an error is an I/O error.
\<close>

definition vdev_geom_io_intr_error :: "bio \<Rightarrow> errno" where
  "vdev_geom_io_intr_error bp =
     (let error = bio_error bp in if error = 0 \<and> bio_resid bp \<noteq> 0 then EIO else error)"

text \<open>Lines 634 to 651: a flush or a delete that is not supported sets its flag.\<close>

definition vdev_geom_io_intr_notsup :: "bio \<Rightarrow> nat \<Rightarrow> world \<Rightarrow> world" where
  "vdev_geom_io_intr_notsup bp vd w =
     (let w = (if bio_cmd bp = BIO_FLUSH \<and> bio_error bp = ENOTSUP
               then upd_vdev vd (\<lambda>v. v\<lparr>vdev_nowritecache := True\<rparr>) w else w)
      in if bio_cmd bp = BIO_DELETE \<and> bio_error bp = ENOTSUP
         then upd_vdev vd (\<lambda>v. v\<lparr>vdev_notrim := True\<rparr>) w else w)"

text \<open>Lines 652 to 671: an I/O error on a vdev whose removal is not yet wanted.\<close>

definition vdev_geom_io_intr_removal :: "bio \<Rightarrow> zio_t \<Rightarrow> world \<Rightarrow> world option" where
  "vdev_geom_io_intr_removal bp zio w =
     (let vd = io_vd zio in
      if io_error zio = EIO \<and> \<not> vdev_remove_wanted (w_vdev w vd) then do {
        to \<leftarrow> bio_to bp;
        pp \<leftarrow> nth_opt (w_provider w) to;
        if pp_error pp \<noteq> 0 then
          Some (emit (SPA_ASYNC_REQUEST (io_spa zio) SPA_ASYNC_REMOVE)
                 (upd_vdev vd (\<lambda>v. v\<lparr>vdev_remove_wanted := True\<rparr>)
                   (emit (ZFS_POST_REMOVE (io_spa zio) vd) w)))
        else if \<not> vdev_delayed_close (w_vdev w vd) then
          Some (upd_vdev vd (\<lambda>v. v\<lparr>vdev_delayed_close := True\<rparr>) w)
        else Some w
      } else Some w)"

definition vdev_geom_io_intr :: "bio \<Rightarrow> world \<Rightarrow> world option" where
  "vdev_geom_io_intr bp w = do {
     zio \<leftarrow> bio_caller1 bp;
     let zio = zio\<lparr>io_error := vdev_geom_io_intr_error bp\<rparr>;
     let w = vdev_geom_io_intr_notsup bp (io_vd zio) w;
     w \<leftarrow> vdev_geom_io_intr_removal bp zio w;
     Some (emit (ZIO_INTERRUPT zio) w)
   }"

text \<open>
  The part of \<^verbatim>\<open>vdev_geom_io_start\<close> after the label \<^verbatim>\<open>sendreq\<close>.  \<^verbatim>\<open>io_offset\<close> and
  \<^verbatim>\<open>io_size\<close> are \<^verbatim>\<open>uint64_t\<close>, \<^verbatim>\<open>bio_offset\<close> and \<^verbatim>\<open>bio_length\<close> are \<^verbatim>\<open>off_t\<close>.
\<close>

definition vdev_geom_io_sendreq :: "zio_t \<Rightarrow> world \<Rightarrow> ((pipeline \<times> zio_t) \<times> world) option" where
  "vdev_geom_io_sendreq zio w =
     (case vdev_tsd (w_vdev w (io_vd zio)) of
        None \<Rightarrow> Some ((ZIO_PIPELINE_CONTINUE, zio\<lparr>io_error := ENXIO\<rparr>), w)
      | Some cp \<Rightarrow> do {
          let bp = g_alloc_bio\<lparr>bio_caller1 := Some zio\<rparr>;
          bp \<leftarrow> (case io_type zio of
                   ZIO_TYPE_READ \<Rightarrow>
                     Some (bp\<lparr>bio_cmd := BIO_READ, bio_data := Some (io_data zio),
                             bio_offset := off_t_of_uint64 (io_offset zio),
                             bio_length := off_t_of_uint64 (io_size zio)\<rparr>)
                 | ZIO_TYPE_WRITE \<Rightarrow>
                     Some (bp\<lparr>bio_cmd := BIO_WRITE, bio_data := Some (io_data zio),
                             bio_offset := off_t_of_uint64 (io_offset zio),
                             bio_length := off_t_of_uint64 (io_size zio)\<rparr>)
                 | ZIO_TYPE_IOCTL \<Rightarrow>
                     (case io_cmd zio of
                        DKIOCFLUSHWRITECACHE \<Rightarrow> do {
                          pp \<leftarrow> provider_of cp w;
                          Some (bp\<lparr>bio_cmd := BIO_FLUSH, bio_ordered := True, bio_data := None,
                                  bio_offset := int (pp_mediasize pp), bio_length := 0\<rparr>)
                        }
                      | DKIOCTRIM \<Rightarrow>
                          Some (bp\<lparr>bio_cmd := BIO_DELETE, bio_data := None,
                                  bio_offset := off_t_of_uint64 (io_offset zio),
                                  bio_length := off_t_of_uint64 (io_size zio)\<rparr>)
                      | DKIOC_OTHER _ \<Rightarrow> Some bp)
                 | _ \<Rightarrow> Some bp);
          let bp = bp\<lparr>bio_done := True\<rparr>;
          w \<leftarrow> g_io_request bp cp w;
          Some ((ZIO_PIPELINE_STOP, zio), w)
        })"

definition vdev_geom_io_start ::
  "kparams \<Rightarrow> zio_t \<Rightarrow> world \<Rightarrow> ((pipeline \<times> zio_t) \<times> world) option"
where
  "vdev_geom_io_start K zio w =
     (let vd = w_vdev w (io_vd zio) in
      if io_type zio = ZIO_TYPE_IOCTL then
        if \<not> vdev_readable K vd then Some ((ZIO_PIPELINE_CONTINUE, zio\<lparr>io_error := ENXIO\<rparr>), w)
        else
          (case io_cmd zio of
             DKIOCFLUSHWRITECACHE \<Rightarrow>
               if zfs_nocacheflush w \<or> vdev_geom_bio_flush_disable w
               then Some ((ZIO_PIPELINE_CONTINUE, zio), w)
               else if vdev_nowritecache vd
               then Some ((ZIO_PIPELINE_CONTINUE, zio\<lparr>io_error := ENOTSUP\<rparr>), w)
               else vdev_geom_io_sendreq zio w
           | DKIOCTRIM \<Rightarrow>
               if vdev_geom_bio_delete_disable w
               then Some ((ZIO_PIPELINE_CONTINUE, zio), w)
               else if vdev_notrim vd
               then Some ((ZIO_PIPELINE_CONTINUE, zio\<lparr>io_error := ENOTSUP\<rparr>), w)
               else vdev_geom_io_sendreq zio w
           | DKIOC_OTHER _ \<Rightarrow> Some ((ZIO_PIPELINE_CONTINUE, zio\<lparr>io_error := ENOTSUP\<rparr>), w))
      else vdev_geom_io_sendreq zio w)"

definition vdev_geom_io_done :: "zio_t \<Rightarrow> world \<Rightarrow> world" where
  "vdev_geom_io_done zio w = w"

definition vdev_geom_hold :: "nat \<Rightarrow> world \<Rightarrow> world" where
  "vdev_geom_hold vd w = w"

definition vdev_geom_rele :: "nat \<Rightarrow> world \<Rightarrow> world" where
  "vdev_geom_rele vd w = w"

subsection \<open>The entry points as events\<close>

text \<open>
  Everything that can happen to the store through this file: the operations of
  \<^verbatim>\<open>vdev_geom_ops\<close>, the completion callback and the two callbacks of the geom.
\<close>

datatype vdev_event =
    EV_OPEN nat
  | EV_CLOSE nat
  | EV_IO_START zio_t
  | EV_IO_INTR bio
  | EV_IO_DONE zio_t
  | EV_HOLD nat
  | EV_RELE nat
  | EV_ORPHAN nat
  | EV_ATTRCHANGED nat string

fun step :: "kparams \<Rightarrow> vdev_event \<Rightarrow> world \<Rightarrow> world option" where
  "step K (EV_OPEN vd) w = map_option snd (vdev_geom_open K vd w)"
| "step K (EV_CLOSE vd) w = vdev_geom_close vd w"
| "step K (EV_IO_START zio) w = map_option snd (vdev_geom_io_start K zio w)"
| "step K (EV_IO_INTR bp) w = vdev_geom_io_intr bp w"
| "step K (EV_IO_DONE zio) w = Some (vdev_geom_io_done zio w)"
| "step K (EV_HOLD vd) w = Some (vdev_geom_hold vd w)"
| "step K (EV_RELE vd) w = Some (vdev_geom_rele vd w)"
| "step K (EV_ORPHAN cp) w = vdev_geom_orphan cp w"
| "step K (EV_ATTRCHANGED cp attr) w = vdev_geom_attrchanged cp attr w"

fun steps :: "kparams \<Rightarrow> vdev_event list \<Rightarrow> world \<Rightarrow> world option" where
  "steps K [] w = Some w"
| "steps K (ev # evs) w = (case step K ev w of None \<Rightarrow> None | Some w' \<Rightarrow> steps K evs w')"

subsection \<open>A concrete system\<close>

text \<open>
  The constants as FreeBSD has them, one disk \<^verbatim>\<open>ada0\<close> with sectors of 512 bytes whose
  labels carry the guids 11 and 22, and vdevs that look for exactly that disk.
  \<open>ex_world\<close> is the system before any open, \<open>ex_opened\<close> the system once vdev 0 is open.
\<close>

definition ex_K :: kparams where
  "ex_K = \<lparr>MAXPHYS = 131072, VDEV_PAD_SIZE = 8192, SPA_MINBLOCKSIZE = 512, VDEV_LABELS = 4,
     sizeof_vdev_label_t = 262144, vdev_readable = (\<lambda>v. True)\<rparr>"

definition ex_label :: nvlist_t where
  "ex_label = [(''version'', DATA_TYPE_UINT64 28), (''name'', DATA_TYPE_OTHER),
     (''pool_guid'', DATA_TYPE_UINT64 11), (''guid'', DATA_TYPE_UINT64 22)]"

definition ex_disk :: g_provider where
  "ex_disk = \<lparr>pp_name = ''ada0'', pp_sectorsize = 512, pp_mediasize = 1073741824, pp_error = 0,
     pp_flags_wither = False, gp_flags_wither = False, pp_physpath = None,
     pp_label = (\<lambda>l. Some ex_label)\<rparr>"

definition ex_spa :: spa_t where
  "ex_spa = \<lparr>spa_guid = 11, spa_load_state = SPA_LOAD_OPEN, spa_splitting_newspa = False,
     spa_mode = 3\<rparr>"

definition ex_vdev :: vdev_t where
  "ex_vdev = \<lparr>vdev_spa = ex_spa, vdev_guid = 22, vdev_path = Some ''/dev/ada0'',
     vdev_physpath = None, vdev_tsd = None, vs_aux = VDEV_AUX_NONE,
     vdev_prevstate = VDEV_STATE_UNKNOWN, vdev_nowritecache = False, vdev_notrim = False,
     vdev_remove_wanted = False, vdev_delayed_close = False\<rparr>"

definition ex_world :: world where
  "ex_world = \<lparr>w_vdev = (\<lambda>vd. ex_vdev),
     w_out = (\<lambda>vd. \<lparr>out_psize = 0, out_max_psize = 0, out_ashift = 0\<rparr>),
     w_provider = [ex_disk], w_consumer = Map.empty, w_geom = None, w_next = 0,
     w_access = [], w_biowait = [], w_trace = [],
     zfs_nocacheflush = False, vdev_geom_bio_flush_disable = False,
     vdev_geom_bio_delete_disable = False\<rparr>"

definition ex_consumer :: g_consumer where
  "ex_consumer = \<lparr>cp_provider = Some 0, cp_private = Some 0, acr = 1, acw = 1, ace = 1\<rparr>"

definition ex_opened :: world where
  "ex_opened = ex_world\<lparr>w_vdev := (\<lambda>vd. ex_vdev)(0 := ex_vdev\<lparr>vdev_tsd := Some 0\<rparr>),
     w_consumer := [0 \<mapsto> ex_consumer], w_geom := Some [0], w_next := 1\<rparr>"

definition ex_read :: zio_t where
  "ex_read = \<lparr>io_type = ZIO_TYPE_READ, io_cmd = DKIOC_OTHER 0, io_vd = 0, io_spa = ex_spa,
     io_data = 0, io_offset = 0, io_size = 262144, io_error = 0\<rparr>"

text \<open>
  A flush request and its completion with \<^verbatim>\<open>ENOTSUP\<close>; a write whose completion reports
  an I/O error; the system with the capability flags of all vdevs set as given; and the
  opened system with the disk's fault indicator set.
\<close>

definition ex_flush :: zio_t where
  "ex_flush = \<lparr>io_type = ZIO_TYPE_IOCTL, io_cmd = DKIOCFLUSHWRITECACHE, io_vd = 0, io_spa = ex_spa,
     io_data = 0, io_offset = 0, io_size = 0, io_error = 0\<rparr>"

definition ex_flush_unsupported :: bio where
  "ex_flush_unsupported = g_alloc_bio\<lparr>bio_cmd := BIO_FLUSH, bio_ordered := True,
     bio_offset := 1073741824, bio_done := True, bio_caller1 := Some ex_flush,
     bio_to := Some 0, bio_error := ENOTSUP\<rparr>"

definition ex_flags :: "bool \<Rightarrow> bool \<Rightarrow> world \<Rightarrow> world" where
  "ex_flags nowritecache notrim w =
     w\<lparr>w_vdev := (\<lambda>vd. (w_vdev w vd)\<lparr>vdev_nowritecache := nowritecache, vdev_notrim := notrim\<rparr>)\<rparr>"

definition ex_write :: zio_t where
  "ex_write = \<lparr>io_type = ZIO_TYPE_WRITE, io_cmd = DKIOC_OTHER 0, io_vd = 0, io_spa = ex_spa,
     io_data = 0, io_offset = 0, io_size = 4096, io_error = 0\<rparr>"

definition ex_write_failed :: bio where
  "ex_write_failed = g_alloc_bio\<lparr>bio_cmd := BIO_WRITE, bio_data := Some 0, bio_length := 4096,
     bio_done := True, bio_caller1 := Some ex_write, bio_to := Some 0, bio_error := EIO,
     bio_resid := 4096\<rparr>"

definition ex_faulty :: world where
  "ex_faulty = ex_opened\<lparr>w_provider := [ex_disk\<lparr>pp_error := ENXIO\<rparr>]\<rparr>"

lemmas ex_defs = ex_K_def ex_label_def ex_disk_def ex_spa_def ex_vdev_def ex_world_def
  ex_consumer_def ex_opened_def ex_read_def

lemmas geom_defs = nth_opt_def emit_def upd_vdev_def upd_consumer_def provider_of_def next_answer_def
  g_new_geomf_def g_new_consumer_def g_attach_def g_access_def g_detach_def g_destroy_consumer_def
  g_wither_geom_def g_provider_by_name_def g_io_request_def biowait_def g_alloc_bio_def
  OFF_MAX_def off_t_ok_def off_t_of_uint64_def


lemmas vdev_defs = vdev_geom_attach_def vdev_geom_attach_consumer_def vdev_geom_attrchanged_def
  vdev_geom_detach_def vdev_geom_open_def vdev_geom_open_find_def vdev_geom_open_check_def
  vdev_geom_open_by_path_def vdev_geom_open_by_guids_def vdev_geom_attach_by_guids_def
  vdev_geom_read_guids_def vdev_geom_io_def vdev_geom_close_def P2ALIGN_def vdev_label_offset_def
  nvlist_get_guids_def ZPOOL_CONFIG_POOL_GUID_def ZPOOL_CONFIG_GUID_def ISP2_def FWRITE_def
  ashift_of_def vdev_geom_io_start_def vdev_geom_io_sendreq_def vdev_geom_io_intr_def
  vdev_geom_io_intr_error_def vdev_geom_io_intr_notsup_def vdev_geom_io_intr_removal_def
  vdev_geom_orphan_def vdev_geom_io_done_def vdev_geom_hold_def vdev_geom_rele_def

lemmas errno_defs = ENOENT_def EIO_def ENXIO_def EINVAL_def ENOTSUP_def

lemma retry_5: "vdev_geom_open_retry 5 = vdev_geom_open_retry (Suc (Suc (Suc (Suc (Suc 0)))))"
  by (simp add: eval_nat_numeral)

lemma highbit_512: "highbit 512 = 10"
  by (simp add: highbit.simps)

lemma ex_open_eval:
  "map_option (\<lambda>(e, w). (e, vdev_tsd (w_vdev w 0), vdev_nowritecache (w_vdev w 0),
       vdev_notrim (w_vdev w 0), w_consumer w 0, w_geom w, out_ashift (w_out w 0),
       w_provider w))
     (vdev_geom_open ex_K 0 (ex_flags c t ex_world)) =
   Some (0, Some 0, False, t, Some ex_consumer, Some [0], 9, [ex_disk])"
  by (simp add: vdev_defs ex_defs ex_flags_def geom_defs Let_def vdev_geom_io_loop.simps
      upt_conv_Cons highbit_512 retry_5)

text \<open>
  The fault reports for vdev \<open>vd\<close> among the calls \<open>es\<close>: the calls of
  \<^verbatim>\<open>zfs_post_remove\<close> for it.
\<close>

definition fault_reports :: "nat \<Rightarrow> event list \<Rightarrow> nat" where
  "fault_reports vd es =
     length (filter (\<lambda>e. case e of ZFS_POST_REMOVE _ u \<Rightarrow> u = vd | _ \<Rightarrow> False) es)"

section \<open>Properties\<close>

subsection \<open>Chunked synchronous transfers\<close>

text \<open>
  \<open>answer rs i\<close> is the device's answer to the \<open>i\<close>-th coming synchronous transfer, and
  \<open>chunk_bio cmd data offset sz maxio pp i\<close> is the \<open>i\<close>-th request of a transfer of \<open>sz\<close>
  bytes at \<open>offset\<close> cut into pieces of \<open>maxio\<close> bytes.
\<close>

definition answer :: "errno list \<Rightarrow> nat \<Rightarrow> errno" where
  "answer rs i = (if i < length rs then rs ! i else 0)"

definition chunk_bio :: "bio_cmd \<Rightarrow> int \<Rightarrow> int \<Rightarrow> int \<Rightarrow> int \<Rightarrow> nat \<Rightarrow> nat \<Rightarrow> bio" where
  "chunk_bio cmd data offset sz maxio pp i =
     g_alloc_bio\<lparr>bio_cmd := cmd, bio_done := False, bio_offset := offset + int i * maxio,
       bio_length := min (sz - int i * maxio) maxio, bio_data := Some (data + int i * maxio),
       bio_to := Some pp\<rparr>"

text \<open>
  How many requests a transfer of \<open>n\<close> chunks issues when the device answers \<open>rs\<close>, and the
  error it returns: it stops at the first answer that is not 0.
\<close>

fun io_issued :: "errno list \<Rightarrow> nat \<Rightarrow> nat" where
  "io_issued rs 0 = 0"
| "io_issued [] (Suc n) = Suc n"
| "io_issued (r # rs) (Suc n) = (if r \<noteq> 0 then 1 else Suc (io_issued rs n))"

fun io_error_of :: "errno list \<Rightarrow> nat \<Rightarrow> errno" where
  "io_error_of rs 0 = 0"
| "io_error_of [] (Suc n) = 0"
| "io_error_of (r # rs) (Suc n) = (if r \<noteq> 0 then r else io_error_of rs n)"

lemma chunk_bio_Suc:
  "chunk_bio cmd p off sz maxio pp (Suc i) = chunk_bio cmd (p + maxio) (off + maxio) (sz - maxio) maxio pp i"
  by (simp add: chunk_bio_def algebra_simps)

lemma map_chunks_Suc:
  "map (\<lambda>i. G_IO_REQUEST cp (chunk_bio cmd p off sz maxio pp i)) [0..<Suc k] =
   G_IO_REQUEST cp (chunk_bio cmd p off sz maxio pp 0) #
   map (\<lambda>i. G_IO_REQUEST cp (chunk_bio cmd (p + maxio) (off + maxio) (sz - maxio) maxio pp i)) [0..<k]"
proof -
  have "[0..<Suc k] = 0 # map Suc [0..<k]"
    by (simp add: upt_conv_Cons map_Suc_upt del: upt_Suc)
  then show ?thesis
    by (simp add: chunk_bio_Suc comp_def del: upt_Suc)
qed

lemma chunks_left_0: "0 < (m::int) \<Longrightarrow> nat ((x + m - 1) div m) = 0 \<longleftrightarrow> x \<le> 0"
proof -
  assume m: "0 < m"
  have "0 < (x + m - 1) div m \<longleftrightarrow> m \<le> x + m - 1"
    using m by (rule pos_imp_zdiv_pos_iff)
  then show ?thesis by auto
qed

lemma chunks_left_Suc:
  assumes "0 < (m::int)" "0 < x"
  shows "nat ((x + m - 1) div m) = Suc (nat ((x - m + m - 1) div m))"
proof -
  have "(x + m - 1) div m = (x - 1 + m) div m" by (simp add: algebra_simps)
  also have "\<dots> = (x - 1) div m + 1" using assms(1) by (simp add: div_add_self2)
  finally have e: "(x + m - 1) div m = (x - 1) div m + 1" .
  have "0 \<le> (x - 1) div m" using assms by (simp add: pos_imp_zdiv_nonneg_iff)
  then show ?thesis using e by (simp add: nat_add_distrib)
qed

lemma io_issued_Nil [simp]: "io_issued [] n = n"
  by (cases n) simp_all

lemma io_error_of_Nil [simp]: "io_error_of [] n = 0"
  by (cases n) simp_all

lemma answer_Cons_Suc [simp]: "answer (r # rs) (Suc i) = answer rs i"
  by (simp add: answer_def)

lemma answer_Cons_0 [simp]: "answer (r # rs) 0 = r"
  by (simp add: answer_def)

lemma answer_Nil [simp]: "answer [] i = 0"
  by (simp add: answer_def)

lemma io_issued_pos: "0 < n \<Longrightarrow> 0 < io_issued rs n"
  by (induction rs n rule: io_issued.induct) auto

lemma io_issued_before: "i < io_issued rs n - 1 \<Longrightarrow> answer rs i = 0"
proof (induction rs n arbitrary: i rule: io_issued.induct)
  case (3 r rs n)
  then show ?case by (cases i) (auto split: if_splits)
qed auto

lemma io_error_of_answer: "0 < n \<Longrightarrow> io_error_of rs n = answer rs (io_issued rs n - 1)"
proof (induction rs n rule: io_issued.induct)
  case (3 r rs n)
  show ?case
  proof (cases "r = 0")
    case True
    show ?thesis
    proof (cases n)
      case 0
      then show ?thesis using True by simp
    next
      case (Suc m)
      then have "0 < io_issued rs n" by (simp add: io_issued_pos)
      then obtain k where k: "io_issued rs n = Suc k" by (cases "io_issued rs n") auto
      then show ?thesis using True 3 Suc by simp
    qed
  qed simp
qed auto

lemma io_error_of_0: "io_error_of rs n = 0 \<Longrightarrow> io_issued rs n = n"
  by (induction rs n rule: io_issued.induct) (auto split: if_splits)

lemma io_issued_le: "io_issued rs n \<le> n"
  by (induction rs n rule: io_issued.induct) auto

lemma loop_run:
  assumes "0 < maxio" "w_consumer w cp = Some c" "cp_provider c = Some pp"
    and "n = nat ((offset - off + maxio - 1) div maxio)"
    and "- OFF_MAX - 1 \<le> off" "off + int n * maxio \<le> OFF_MAX"
    and "sz \<le> OFF_MAX" "- OFF_MAX - 1 \<le> sz - int n * maxio"
  shows "vdev_geom_io_loop cp cmd maxio offset off p sz 0 w =
     Some (io_error_of (w_biowait w) n,
       w\<lparr>w_biowait := drop (io_issued (w_biowait w) n) (w_biowait w),
         w_trace := w_trace w @ map (\<lambda>i. G_IO_REQUEST cp (chunk_bio cmd p off sz maxio pp i))
            [0..<io_issued (w_biowait w) n]\<rparr>)"
  using assms
proof (induction n arbitrary: off p sz w)
  case 0
  then have "\<not> off < offset" using chunks_left_0[of maxio "offset - off"] by simp
  then show ?case by (subst vdev_geom_io_loop.simps) simp
next
  case (Suc n)
  have lt: "off < offset"
    using Suc.prems chunks_left_0[of maxio "offset - off"] by (cases "off < offset") auto
  have n: "n = nat ((offset - (off + maxio) + maxio - 1) div maxio)"
    using Suc.prems(4) chunks_left_Suc[of maxio "offset - off"] lt Suc.prems(1)
    by (simp add: algebra_simps)
  have nm: "0 \<le> int n * maxio" using Suc.prems(1) by simp
  have e: "int (Suc n) * maxio = maxio + int n * maxio" by (simp add: algebra_simps)
  have b1: "- OFF_MAX - 1 \<le> off + maxio" using Suc.prems(1,5) by simp
  have b2: "off + maxio + int n * maxio \<le> OFF_MAX" using Suc.prems(6) e by simp
  have b3: "sz - maxio \<le> OFF_MAX" using Suc.prems(1,7) by simp
  have b4: "- OFF_MAX - 1 \<le> sz - maxio - int n * maxio" using Suc.prems(8) e by simp
  have ok: "off_t_ok (off + maxio) \<and> off_t_ok (sz - maxio)"
    using b1 b2 b3 b4 nm by (simp add: off_t_ok_def)
  let ?b0 = "chunk_bio cmd p off sz maxio pp 0"
  let ?w1 = "emit (G_IO_REQUEST cp ?b0) w"
  have req: "g_io_request (g_alloc_bio\<lparr>bio_cmd := cmd, bio_done := False, bio_offset := off,
                   bio_length := min sz maxio, bio_data := Some p\<rparr>) cp w = Some ?w1"
    using Suc.prems(2,3) by (simp add: g_io_request_def chunk_bio_def)
  show ?case
  proof (cases "w_biowait w")
    case Nil
    let ?w2 = "?w1\<lparr>w_biowait := []\<rparr>"
    have bw: "biowait ?w1 = (0, ?w2)"
      using Nil by (simp add: biowait_def next_answer_def emit_def)
    have c2: "w_consumer ?w2 cp = Some c" by (simp add: emit_def Suc.prems(2))
    note ih = Suc.IH[OF Suc.prems(1) c2 Suc.prems(3) n b1 b2 b3 b4]
    show ?thesis
      apply (subst vdev_geom_io_loop.simps)
      apply (simp only: lt if_True req option.case bw prod.case ok simp_thms)
      apply (simp only: ih)
      apply (simp add: Nil emit_def answer_def map_chunks_Suc del: upt_Suc)
      done
  next
    case (Cons r rs)
    let ?w2 = "?w1\<lparr>w_biowait := rs\<rparr>"
    have bw: "biowait ?w1 = (r, ?w2)"
      using Cons by (simp add: biowait_def next_answer_def emit_def)
    show ?thesis
    proof (cases "r = 0")
      case True
      have c2: "w_consumer ?w2 cp = Some c" by (simp add: emit_def Suc.prems(2))
      note ih = Suc.IH[OF Suc.prems(1) c2 Suc.prems(3) n b1 b2 b3 b4]
      show ?thesis
        apply (subst vdev_geom_io_loop.simps)
        apply (simp only: lt if_True req option.case bw prod.case True ok simp_thms)
        apply (simp only: ih)
        apply (simp add: Cons True emit_def answer_def map_chunks_Suc del: upt_Suc)
        done
    next
      case False
      show ?thesis
        apply (subst vdev_geom_io_loop.simps)
        apply (simp only: lt if_True req option.case bw prod.case)
        apply (simp add: Cons False emit_def answer_def)
        done
    qed
  qed
qed


lemma ceil_bounds:
  assumes "0 < (M::int)" "0 < L" "n = nat ((L + M - 1) div M)"
  shows "(int n - 1) * M < L" "L \<le> int n * M" "0 < n"
proof -
  let ?q = "(L + M - 1) div M"
  have e: "?q * M + (L + M - 1) mod M = L + M - 1" by (rule div_mult_mod_eq)
  have r: "0 \<le> (L + M - 1) mod M" "(L + M - 1) mod M < M" using assms(1) by simp_all
  have q1: "?q * M \<le> L + M - 1" using e r by linarith
  have d: "(?q + 1) * M = ?q * M + M" by (simp add: algebra_simps)
  have q2: "L + M - 1 < (?q + 1) * M" using e r d by linarith
  have "0 < ?q" using assms by (simp add: pos_imp_zdiv_pos_iff)
  then have n: "int n = ?q" using assms(3) by simp
  have d': "(?q - 1) * M = ?q * M - M" by (simp add: algebra_simps)
  show "(int n - 1) * M < L" using q1 d' unfolding n by linarith
  show "L \<le> int n * M" using q2 d unfolding n by linarith
  show "0 < n" using \<open>0 < ?q\<close> n by simp
qed


lemma chunk_bio_length_bounds:
  assumes "0 < (M::int)" "0 < L" "n = nat ((L + M - 1) div M)" "i < n"
  shows "0 < bio_length (chunk_bio cmd data offset L M pp i)"
    and "bio_length (chunk_bio cmd data offset L M pp i) \<le> M"
proof -
  have "int i \<le> int n - 1" using assms(4) by simp
  then have "int i * M \<le> (int n - 1) * M" using assms(1) by (simp add: mult_right_mono)
  then have "int i * M < L" using ceil_bounds(1)[OF assms(1-3)] by linarith
  then show "0 < bio_length (chunk_bio cmd data offset L M pp i)"
    using assms(1) by (simp add: chunk_bio_def)
  show "bio_length (chunk_bio cmd data offset L M pp i) \<le> M"
    by (simp add: chunk_bio_def)
qed

lemma chunk_bio_full:
  assumes "0 < (M::int)" "0 < L" "n = nat ((L + M - 1) div M)" "Suc i < n"
  shows "bio_length (chunk_bio cmd data offset L M pp i) = M"
proof -
  have "int i + 1 \<le> int n - 1" using assms(4) by simp
  then have "(int i + 1) * M \<le> (int n - 1) * M" using assms(1) by (simp add: mult_right_mono)
  then have "(int i + 1) * M < L" using ceil_bounds(1)[OF assms(1-3)] by linarith
  then have "M < L - int i * M" by (simp add: algebra_simps)
  then show ?thesis by (simp add: chunk_bio_def)
qed

lemma chunk_bio_contiguous:
  assumes "0 < (M::int)" "0 < L" "n = nat ((L + M - 1) div M)" "Suc i < n"
  shows "bio_offset (chunk_bio cmd data offset L M pp (Suc i)) =
         bio_offset (chunk_bio cmd data offset L M pp i) + bio_length (chunk_bio cmd data offset L M pp i)"
  unfolding chunk_bio_full[OF assms] by (simp add: chunk_bio_def algebra_simps)

lemma chunk_bio_length_sum:
  assumes "0 < (M::int)" "0 < L" "n = nat ((L + M - 1) div M)"
  shows "(\<Sum>i<n. bio_length (chunk_bio cmd data offset L M pp i)) = L"
proof -
  obtain m where m: "n = Suc m"
    using ceil_bounds(3)[OF assms] by (cases n) auto
  have full: "bio_length (chunk_bio cmd data offset L M pp i) = M" if "i < m" for i
  proof -
    have "Suc i < n" using that m by simp
    then show ?thesis by (rule chunk_bio_full[OF assms])
  qed
  have "(\<Sum>i<m. bio_length (chunk_bio cmd data offset L M pp i)) = (\<Sum>i<m. M)"
    by (rule sum.cong) (simp_all add: full)
  also have "\<dots> = int m * M" by simp
  finally have front: "(\<Sum>i<m. bio_length (chunk_bio cmd data offset L M pp i)) = int m * M" .
  have "L \<le> int (Suc m) * M" using ceil_bounds(2)[OF assms] m by simp
  then have "L - int m * M \<le> M" by (simp add: algebra_simps)
  then have last: "bio_length (chunk_bio cmd data offset L M pp m) = L - int m * M"
    by (simp add: chunk_bio_def)
  show ?thesis unfolding m using front last by simp
qed

lemma ceil_idiom:
  assumes "0 < (M::int)"
  shows "\<lceil>real_of_int L / real_of_int M\<rceil> = (L + M - 1) div M"
proof -
  let ?q = "(L + M - 1) div M"
  have e: "?q * M + (L + M - 1) mod M = L + M - 1" by (rule div_mult_mod_eq)
  have r: "0 \<le> (L + M - 1) mod M" "(L + M - 1) mod M < M" using assms by simp_all
  have d: "(?q - 1) * M = ?q * M - M" by (simp add: algebra_simps)
  have lo: "(?q - 1) * M < L" using e r d by linarith
  have hi: "L \<le> ?q * M" using e r by linarith
  have "real_of_int (?q - 1) * real_of_int M < real_of_int L"
    using lo by (metis of_int_less_iff of_int_mult)
  then have a: "real_of_int ?q - 1 < real_of_int L / real_of_int M"
    using assms by (simp add: pos_less_divide_eq)
  have "real_of_int L \<le> real_of_int ?q * real_of_int M"
    using hi by (metis of_int_le_iff of_int_mult)
  then have b: "real_of_int L / real_of_int M \<le> real_of_int ?q"
    using assms by (simp add: pos_divide_le_eq)
  show ?thesis using a b by (simp add: ceiling_eq_iff)
qed

text \<open>
  The synchronous transfer.  \<open>vdev_geom_io\<close> returns, having issued the first \<open>k\<close> of the
  \<open>n = \<lceil>L / M\<rceil>\<close> chunks and nothing else.  The hypotheses on \<open>offset\<close> keep the
  \<^verbatim>\<open>off_t\<close> arithmetic of the loop, the increment after the last chunk included, in
  range.
\<close>

lemma vdev_geom_io_sync:
  assumes "w_consumer w cp = Some c" and "cp_provider c = Some ppi"
    and "nth_opt (w_provider w) ppi = Some pp"
    and "M = int (MAXPHYS K - MAXPHYS K mod pp_sectorsize pp)" and "0 < M"
    and "0 < L" and "offset mod int (pp_sectorsize pp) = 0" and "L mod int (pp_sectorsize pp) = 0"
    and "0 \<le> offset" and "offset + L + M \<le> OFF_MAX + 1"
    and "n = nat \<lceil>real_of_int L / real_of_int M\<rceil>"
  shows "\<exists>k e w'. vdev_geom_io K cp cmd data offset L w = Some (e, w') \<and> 1 \<le> k \<and> k \<le> n \<and>
     w_trace w' = w_trace w @
       map (\<lambda>i. G_IO_REQUEST cp (chunk_bio cmd data offset L M ppi i)) [0..<k] \<and>
     (\<forall>i<k - 1. answer (w_biowait w) i = 0) \<and> e = answer (w_biowait w) (k - 1) \<and>
     (e = 0 \<longrightarrow> k = n) \<and>
     (\<forall>i<n. 0 < bio_length (chunk_bio cmd data offset L M ppi i) \<and>
             bio_length (chunk_bio cmd data offset L M ppi i) \<le> M) \<and>
     (\<forall>i. Suc i < n \<longrightarrow> bio_offset (chunk_bio cmd data offset L M ppi (Suc i)) =
             bio_offset (chunk_bio cmd data offset L M ppi i) +
             bio_length (chunk_bio cmd data offset L M ppi i)) \<and>
     (\<Sum>i<n. bio_length (chunk_bio cmd data offset L M ppi i)) = L"
proof -
  have n: "n = nat ((L + M - 1) div M)"
    using assms(11) ceil_idiom[OF assms(5)] by simp
  have n': "n = nat ((offset + L - offset + M - 1) div M)" using n by simp
  have ss: "pp_sectorsize pp \<noteq> 0" using assms(4,5) by (cases "pp_sectorsize pp = 0") auto
  have pp: "provider_of cp w = Some pp"
    using assms(1-3) by (simp add: provider_of_def)
  have npos: "0 < n" using ceil_bounds(3)[OF assms(5,6) n] .
  have nm: "int n * M < L + M"
  proof -
    have "(int n - 1) * M = int n * M - M" by (simp add: algebra_simps)
    then show ?thesis using ceil_bounds(1)[OF assms(5,6) n] by linarith
  qed
  have nm0: "0 \<le> int n * M" using assms(5) by simp
  have b1: "- OFF_MAX - 1 \<le> offset" using assms(9) by (simp add: OFF_MAX_def)
  have b2: "offset + int n * M \<le> OFF_MAX" using nm assms(10) by linarith
  have b3: "L \<le> OFF_MAX" using assms(5,9,10) by linarith
  have b4: "- OFF_MAX - 1 \<le> L - int n * M" using nm assms(6,9,10) by linarith
  have ok: "off_t_ok (offset + L)"
    using assms(5,6,9,10) by (simp add: off_t_ok_def OFF_MAX_def)
  let ?rs = "w_biowait w"
  let ?k = "io_issued ?rs n"
  have run: "vdev_geom_io K cp cmd data offset L w =
     Some (io_error_of ?rs n,
       w\<lparr>w_biowait := drop ?k ?rs,
         w_trace := w_trace w @ map (\<lambda>i. G_IO_REQUEST cp (chunk_bio cmd data offset L M ppi i)) [0..<?k]\<rparr>)"
    using loop_run[OF assms(5) assms(1) assms(2) n' b1 b2 b3 b4, of cmd data] ss assms(4,7,8) pp ok
    by (simp add: vdev_geom_io_def Let_def)
  show ?thesis
    apply (rule exI[of _ ?k], rule exI[of _ "io_error_of ?rs n"], rule exI)
    apply (intro conjI)
            apply (rule run)
    using io_issued_pos[OF npos, of ?rs] apply simp
          apply (rule io_issued_le)
         apply simp
        apply (simp add: io_issued_before)
       apply (rule io_error_of_answer[OF npos])
      apply (simp add: io_error_of_0)
    using chunk_bio_length_bounds[OF assms(5,6) n] apply simp
    using chunk_bio_contiguous[OF assms(5,6) n] apply simp
    using chunk_bio_length_sum[OF assms(5,6) n] apply simp
    done
qed

text \<open>
  The asynchronous path.  \<open>zio_bio zio ppi\<close> is the one request that
  \<^verbatim>\<open>vdev_geom_io_start\<close> makes of a read or a write: the whole transfer.
\<close>

definition zio_bio :: "zio_t \<Rightarrow> nat \<Rightarrow> bio" where
  "zio_bio zio ppi =
     g_alloc_bio\<lparr>bio_cmd := (if io_type zio = ZIO_TYPE_READ then BIO_READ else BIO_WRITE),
       bio_data := Some (io_data zio), bio_offset := io_offset zio, bio_length := io_size zio,
       bio_done := True, bio_caller1 := Some zio, bio_to := Some ppi\<rparr>"

lemma off_t_of_uint64_id: "0 \<le> x \<Longrightarrow> x \<le> OFF_MAX \<Longrightarrow> off_t_of_uint64 x = x"
  by (simp add: off_t_of_uint64_def OFF_MAX_def Let_def)

lemma vdev_geom_io_start_whole:
  assumes "io_type zio = ZIO_TYPE_READ \<or> io_type zio = ZIO_TYPE_WRITE"
    and "vdev_tsd (w_vdev w (io_vd zio)) = Some cp"
    and "w_consumer w cp = Some c" and "cp_provider c = Some ppi"
    and "0 \<le> io_offset zio" and "io_offset zio \<le> OFF_MAX"
    and "0 \<le> io_size zio" and "io_size zio \<le> OFF_MAX"
  shows "vdev_geom_io_start K zio w =
     Some ((ZIO_PIPELINE_STOP, zio), emit (G_IO_REQUEST cp (zio_bio zio ppi)) w)"
  using assms
  by (auto simp: vdev_geom_io_start_def vdev_geom_io_sendreq_def g_io_request_def zio_bio_def
      off_t_of_uint64_id g_alloc_bio_def)

lemma vdev_geom_io_start_null:
  assumes "io_type zio = ZIO_TYPE_READ \<or> io_type zio = ZIO_TYPE_WRITE"
    and "vdev_tsd (w_vdev w (io_vd zio)) = None"
  shows "vdev_geom_io_start K zio w =
     Some ((ZIO_PIPELINE_CONTINUE, zio\<lparr>io_error := ENXIO\<rparr>), w)"
  using assms by (auto simp: vdev_geom_io_start_def vdev_geom_io_sendreq_def)

text \<open>
  Claim C3, as amended.  First, a synchronous transfer of \<open>L > 0\<close> bytes at \<open>offset \<ge> 0\<close>
  through \<^verbatim>\<open>vdev_geom_io\<close>, with \<open>M\<close> the largest transfer size rounded down to a multiple
  of the sector size, \<open>M > 0\<close>, \<open>offset\<close> and \<open>L\<close> multiples of the sector size and
  \<open>offset + L + M \<le> 2\<^sup>6\<^sup>3\<close>, returns.  It issues the first \<open>k\<close> of the \<open>n = \<lceil>L / M\<rceil>\<close>
  chunks, in increasing offset order and nothing else: all answers before the last
  issued one are 0, the error returned is the answer to the last issued chunk, and when
  that is 0 all \<open>n\<close> chunks were issued.  Every chunk has between 1 and \<open>M\<close> bytes, each
  chunk starts where the one before it ends, and the lengths add up to \<open>L\<close>.  Second,
  \<^verbatim>\<open>vdev_geom_io_start\<close> does not cut a transfer: a read or a write with offset and size
  below \<open>2\<^sup>6\<^sup>3\<close>, for a vdev whose handle is a consumer attached to a provider, is handed
  to the device as exactly one request of the whole size, and the pipeline stops.
  Third, with a null handle it makes no request and ends with \<^verbatim>\<open>ENXIO\<close>.
\<close>

theorem vdev_geom_io_chunks:
  "(w_consumer w cp = Some c \<and> cp_provider c = Some ppi \<and>
    nth_opt (w_provider w) ppi = Some pp \<and>
    M = int (MAXPHYS K - MAXPHYS K mod pp_sectorsize pp) \<and> 0 < M \<and> 0 < L \<and>
    offset mod int (pp_sectorsize pp) = 0 \<and> L mod int (pp_sectorsize pp) = 0 \<and>
    0 \<le> offset \<and> offset + L + M \<le> OFF_MAX + 1 \<and>
    n = nat \<lceil>real_of_int L / real_of_int M\<rceil> \<longrightarrow>
    (\<exists>k e w'. vdev_geom_io K cp cmd data offset L w = Some (e, w') \<and> 1 \<le> k \<and> k \<le> n \<and>
       w_trace w' = w_trace w @
         map (\<lambda>i. G_IO_REQUEST cp (chunk_bio cmd data offset L M ppi i)) [0..<k] \<and>
       (\<forall>i<k - 1. answer (w_biowait w) i = 0) \<and> e = answer (w_biowait w) (k - 1) \<and>
       (e = 0 \<longrightarrow> k = n) \<and>
       (\<forall>i<n. 0 < bio_length (chunk_bio cmd data offset L M ppi i) \<and>
               bio_length (chunk_bio cmd data offset L M ppi i) \<le> M) \<and>
       (\<forall>i. Suc i < n \<longrightarrow> bio_offset (chunk_bio cmd data offset L M ppi (Suc i)) =
               bio_offset (chunk_bio cmd data offset L M ppi i) +
               bio_length (chunk_bio cmd data offset L M ppi i)) \<and>
       (\<Sum>i<n. bio_length (chunk_bio cmd data offset L M ppi i)) = L)) \<and>
   ((io_type zio = ZIO_TYPE_READ \<or> io_type zio = ZIO_TYPE_WRITE) \<and>
    vdev_tsd (w_vdev v (io_vd zio)) = Some zcp \<and>
    w_consumer v zcp = Some zc \<and> cp_provider zc = Some zpp \<and>
    0 \<le> io_offset zio \<and> io_offset zio \<le> OFF_MAX \<and>
    0 \<le> io_size zio \<and> io_size zio \<le> OFF_MAX \<longrightarrow>
    vdev_geom_io_start K zio v =
      Some ((ZIO_PIPELINE_STOP, zio), emit (G_IO_REQUEST zcp (zio_bio zio zpp)) v) \<and>
    bio_offset (zio_bio zio zpp) = io_offset zio \<and>
    bio_length (zio_bio zio zpp) = io_size zio) \<and>
   ((io_type zio = ZIO_TYPE_READ \<or> io_type zio = ZIO_TYPE_WRITE) \<and>
    vdev_tsd (w_vdev v (io_vd zio)) = None \<longrightarrow>
    vdev_geom_io_start K zio v = Some ((ZIO_PIPELINE_CONTINUE, zio\<lparr>io_error := ENXIO\<rparr>), v))"
proof (intro conjI impI)
  assume "w_consumer w cp = Some c \<and> cp_provider c = Some ppi \<and>
    nth_opt (w_provider w) ppi = Some pp \<and>
    M = int (MAXPHYS K - MAXPHYS K mod pp_sectorsize pp) \<and> 0 < M \<and> 0 < L \<and>
    offset mod int (pp_sectorsize pp) = 0 \<and> L mod int (pp_sectorsize pp) = 0 \<and>
    0 \<le> offset \<and> offset + L + M \<le> OFF_MAX + 1 \<and>
    n = nat \<lceil>real_of_int L / real_of_int M\<rceil>"
  then show "\<exists>k e w'. vdev_geom_io K cp cmd data offset L w = Some (e, w') \<and> 1 \<le> k \<and> k \<le> n \<and>
       w_trace w' = w_trace w @
         map (\<lambda>i. G_IO_REQUEST cp (chunk_bio cmd data offset L M ppi i)) [0..<k] \<and>
       (\<forall>i<k - 1. answer (w_biowait w) i = 0) \<and> e = answer (w_biowait w) (k - 1) \<and>
       (e = 0 \<longrightarrow> k = n) \<and>
       (\<forall>i<n. 0 < bio_length (chunk_bio cmd data offset L M ppi i) \<and>
               bio_length (chunk_bio cmd data offset L M ppi i) \<le> M) \<and>
       (\<forall>i. Suc i < n \<longrightarrow> bio_offset (chunk_bio cmd data offset L M ppi (Suc i)) =
               bio_offset (chunk_bio cmd data offset L M ppi i) +
               bio_length (chunk_bio cmd data offset L M ppi i)) \<and>
       (\<Sum>i<n. bio_length (chunk_bio cmd data offset L M ppi i)) = L"
    by (intro vdev_geom_io_sync) (elim conjE, assumption)+
next
  assume a: "(io_type zio = ZIO_TYPE_READ \<or> io_type zio = ZIO_TYPE_WRITE) \<and>
    vdev_tsd (w_vdev v (io_vd zio)) = Some zcp \<and>
    w_consumer v zcp = Some zc \<and> cp_provider zc = Some zpp \<and>
    0 \<le> io_offset zio \<and> io_offset zio \<le> OFF_MAX \<and>
    0 \<le> io_size zio \<and> io_size zio \<le> OFF_MAX"
  then show "vdev_geom_io_start K zio v =
      Some ((ZIO_PIPELINE_STOP, zio), emit (G_IO_REQUEST zcp (zio_bio zio zpp)) v)"
    by (intro vdev_geom_io_start_whole) (elim conjE, assumption)+
  show "bio_offset (zio_bio zio zpp) = io_offset zio" by (simp add: zio_bio_def)
  show "bio_length (zio_bio zio zpp) = io_size zio" by (simp add: zio_bio_def)
next
  assume "(io_type zio = ZIO_TYPE_READ \<or> io_type zio = ZIO_TYPE_WRITE) \<and>
    vdev_tsd (w_vdev v (io_vd zio)) = None"
  then show "vdev_geom_io_start K zio v = Some ((ZIO_PIPELINE_CONTINUE, zio\<lparr>io_error := ENXIO\<rparr>), v)"
    by (intro vdev_geom_io_start_null) (elim conjE, assumption)+
qed

theorem vdev_geom_io_chunks_witness:
  "(\<exists>k e w'. vdev_geom_io ex_K 0 BIO_READ 0 0 262144 (ex_opened\<lparr>w_biowait := [0, 5]\<rparr>) = Some (e, w') \<and>
     1 \<le> k \<and> k \<le> 2 \<and>
     w_trace w' = map (\<lambda>i. G_IO_REQUEST 0 (chunk_bio BIO_READ 0 0 262144 131072 0 i)) [0..<k] \<and>
     e = answer [0, 5] (k - 1) \<and>
     (\<Sum>i<2. bio_length (chunk_bio BIO_READ 0 0 262144 131072 0 i)) = 262144) \<and>
   vdev_geom_io_start ex_K ex_read ex_opened =
     Some ((ZIO_PIPELINE_STOP, ex_read), emit (G_IO_REQUEST 0 (zio_bio ex_read 0)) ex_opened) \<and>
   bio_length (zio_bio ex_read 0) = 262144 \<and>
   vdev_geom_io_start ex_K ex_read ex_world =
     Some ((ZIO_PIPELINE_CONTINUE, ex_read\<lparr>io_error := ENXIO\<rparr>), ex_world)"
proof -
  let ?w = "ex_opened\<lparr>w_biowait := [0, 5]\<rparr>"
  have h: "w_consumer ?w 0 = Some ex_consumer \<and> cp_provider ex_consumer = Some 0 \<and>
    nth_opt (w_provider ?w) 0 = Some ex_disk \<and>
    (131072::int) = int (MAXPHYS ex_K - MAXPHYS ex_K mod pp_sectorsize ex_disk) \<and>
    (0::int) < 131072 \<and> (0::int) < 262144 \<and>
    (0::int) mod int (pp_sectorsize ex_disk) = 0 \<and> (262144::int) mod int (pp_sectorsize ex_disk) = 0 \<and>
    (0::int) \<le> 0 \<and> (0::int) + 262144 + 131072 \<le> OFF_MAX + 1 \<and>
    (2::nat) = nat \<lceil>real_of_int 262144 / real_of_int 131072\<rceil>"
    by (simp add: ex_defs nth_opt_def OFF_MAX_def)
  have g: "(io_type ex_read = ZIO_TYPE_READ \<or> io_type ex_read = ZIO_TYPE_WRITE) \<and>
    vdev_tsd (w_vdev ex_opened (io_vd ex_read)) = Some 0 \<and>
    w_consumer ex_opened 0 = Some ex_consumer \<and> cp_provider ex_consumer = Some 0 \<and>
    0 \<le> io_offset ex_read \<and> io_offset ex_read \<le> OFF_MAX \<and>
    0 \<le> io_size ex_read \<and> io_size ex_read \<le> OFF_MAX"
    by (simp add: ex_defs OFF_MAX_def)
  have f: "(io_type ex_read = ZIO_TYPE_READ \<or> io_type ex_read = ZIO_TYPE_WRITE) \<and>
    vdev_tsd (w_vdev ex_world (io_vd ex_read)) = None"
    by (simp add: ex_defs)
  note t1 = vdev_geom_io_chunks[of ?w 0 ex_consumer 0 ex_disk 131072 ex_K 262144 0 2 BIO_READ 0
      ex_read ex_opened 0 ex_consumer 0, THEN conjunct1, rule_format, OF h]
  note t2 = vdev_geom_io_chunks[of ?w 0 ex_consumer 0 ex_disk 131072 ex_K 262144 0 2 BIO_READ 0
      ex_read ex_opened 0 ex_consumer 0, THEN conjunct2, THEN conjunct1, rule_format, OF g]
  note t3 = vdev_geom_io_chunks[of ?w 0 ex_consumer 0 ex_disk 131072 ex_K 262144 0 2 BIO_READ 0
      ex_read ex_world 0 ex_consumer 0, THEN conjunct2, THEN conjunct2, rule_format, OF f]
  from t1 obtain k e w' where
    "vdev_geom_io ex_K 0 BIO_READ 0 0 262144 ?w = Some (e, w')" "1 \<le> k" "k \<le> 2"
    "w_trace w' = w_trace ?w @ map (\<lambda>i. G_IO_REQUEST 0 (chunk_bio BIO_READ 0 0 262144 131072 0 i)) [0..<k]"
    "e = answer (w_biowait ?w) (k - 1)"
    "(\<Sum>i<2. bio_length (chunk_bio BIO_READ 0 0 262144 131072 0 i)) = 262144"
    by blast
  then have a: "\<exists>k e w'. vdev_geom_io ex_K 0 BIO_READ 0 0 262144 ?w = Some (e, w') \<and>
     1 \<le> k \<and> k \<le> 2 \<and>
     w_trace w' = map (\<lambda>i. G_IO_REQUEST 0 (chunk_bio BIO_READ 0 0 262144 131072 0 i)) [0..<k] \<and>
     e = answer [0, 5] (k - 1) \<and>
     (\<Sum>i<2. bio_length (chunk_bio BIO_READ 0 0 262144 131072 0 i)) = 262144"
    by (intro exI[of _ k] exI[of _ e] exI[of _ w']) (simp add: ex_defs)
  have b: "bio_length (zio_bio ex_read 0) = 262144" using t2 by (simp add: ex_defs)
  from a t2 b t3 show ?thesis by simp
qed

text \<open>
  The asynchronous path does not cut a transfer: \<^verbatim>\<open>vdev_geom_io_start\<close> hands a read of
  262144 bytes to the device as one request, where \<open>\<lceil>L / M\<rceil>\<close> is 2.
\<close>

theorem vdev_geom_io_start_single_request_counterexample:
  "map_option (\<lambda>r. (fst (fst r), w_trace (snd r))) (vdev_geom_io_start ex_K ex_read ex_opened) =
     Some (ZIO_PIPELINE_STOP,
           [G_IO_REQUEST 0 (g_alloc_bio\<lparr>bio_cmd := BIO_READ, bio_data := Some 0, bio_offset := 0,
               bio_length := 262144, bio_done := True, bio_caller1 := Some ex_read,
               bio_to := Some 0\<rparr>)]) \<and>
   nat \<lceil>real_of_int (io_size ex_read) /
        real (MAXPHYS ex_K - MAXPHYS ex_K mod pp_sectorsize ex_disk)\<rceil> = 2"
  by (simp add: vdev_geom_io_start_def vdev_geom_io_sendreq_def ex_defs geom_defs Let_def)

subsection \<open>What the helper functions leave alone\<close>

text \<open>
  \<open>frame P w w'\<close>: from \<open>w\<close> to \<open>w'\<close> the providers and the cells open writes through are
  unchanged, no vdev has changed its capability flags, its removal flag, its status, its
  pool or its guid, a handle has at most been set to null, and the calls made in between
  all satisfy \<open>P\<close>.
\<close>

definition vdev_kept :: "vdev_t \<Rightarrow> vdev_t \<Rightarrow> bool" where
  "vdev_kept v v' \<longleftrightarrow>
     vdev_nowritecache v' = vdev_nowritecache v \<and> vdev_notrim v' = vdev_notrim v \<and>
     vdev_remove_wanted v' = vdev_remove_wanted v \<and> vs_aux v' = vs_aux v \<and>
     vdev_spa v' = vdev_spa v \<and> vdev_guid v' = vdev_guid v \<and>
     (vdev_tsd v' = vdev_tsd v \<or> vdev_tsd v' = None)"

definition trace_ext :: "(event \<Rightarrow> bool) \<Rightarrow> world \<Rightarrow> world \<Rightarrow> bool" where
  "trace_ext P w w' \<longleftrightarrow> (\<exists>es. w_trace w' = w_trace w @ es \<and> list_all P es)"

definition frame :: "(event \<Rightarrow> bool) \<Rightarrow> world \<Rightarrow> world \<Rightarrow> bool" where
  "frame P w w' \<longleftrightarrow>
     w_provider w' = w_provider w \<and> w_out w' = w_out w \<and>
     (\<forall>u. vdev_kept (w_vdev w u) (w_vdev w' u)) \<and> trace_ext P w w'"

lemma vdev_kept_refl [simp]: "vdev_kept v v"
  by (simp add: vdev_kept_def)

lemma vdev_kept_trans: "vdev_kept v v1 \<Longrightarrow> vdev_kept v1 v2 \<Longrightarrow> vdev_kept v v2"
  unfolding vdev_kept_def by auto

lemma trace_ext_refl [simp]: "trace_ext P w w"
  by (simp add: trace_ext_def)

lemma trace_ext_trans: "trace_ext P w w1 \<Longrightarrow> trace_ext P w1 w2 \<Longrightarrow> trace_ext P w w2"
  unfolding trace_ext_def by auto

lemma trace_ext_mono: "trace_ext P w w' \<Longrightarrow> (\<And>e. P e \<Longrightarrow> Q e) \<Longrightarrow> trace_ext Q w w'"
  unfolding trace_ext_def by (auto simp: list_all_iff)

lemma frame_refl [simp, intro!]: "frame P w w"
  by (simp add: frame_def)

lemma frame_trans: "frame P w w1 \<Longrightarrow> frame P w1 w2 \<Longrightarrow> frame P w w2"
  unfolding frame_def by (auto intro: vdev_kept_trans trace_ext_trans)

lemma frame_mono: "frame P w w' \<Longrightarrow> (\<And>e. P e \<Longrightarrow> Q e) \<Longrightarrow> frame Q w w'"
  unfolding frame_def by (auto intro: trace_ext_mono)

lemma frame_emit: "P e \<Longrightarrow> frame P w w' \<Longrightarrow> frame P w (emit e w')"
  unfolding frame_def emit_def trace_ext_def by auto

lemma frame_upd_consumer: "frame P w w' \<Longrightarrow> frame P w (upd_consumer cp f w')"
  unfolding frame_def upd_consumer_def trace_ext_def by auto

lemma frame_tsd_None: "frame P w w' \<Longrightarrow> frame P w (upd_vdev vd (\<lambda>v. v\<lparr>vdev_tsd := None\<rparr>) w')"
  unfolding frame_def upd_vdev_def trace_ext_def vdev_kept_def by auto

lemma frame_physpath: "frame P w w' \<Longrightarrow> frame P w (upd_vdev vd (\<lambda>v. v\<lparr>vdev_physpath := x\<rparr>) w')"
  unfolding frame_def upd_vdev_def trace_ext_def vdev_kept_def by auto

lemma frame_path: "frame P w w' \<Longrightarrow> frame P w (upd_vdev vd (\<lambda>v. v\<lparr>vdev_path := x\<rparr>) w')"
  unfolding frame_def upd_vdev_def trace_ext_def vdev_kept_def by auto

lemma frame_g_new_geomf: "frame P w w' \<Longrightarrow> frame P w (g_new_geomf w')"
  unfolding frame_def g_new_geomf_def trace_ext_def by auto

lemma frame_g_new_consumer: "frame P w w' \<Longrightarrow> g_new_consumer gp w' = (cp, w'') \<Longrightarrow> frame P w w''"
  unfolding frame_def g_new_consumer_def trace_ext_def by auto

lemma frame_g_detach: "frame P w w' \<Longrightarrow> frame P w (g_detach cp w')"
  unfolding g_detach_def by (rule frame_upd_consumer)

lemma frame_g_destroy_consumer: "frame P w w' \<Longrightarrow> frame P w (g_destroy_consumer cp w')"
  unfolding frame_def g_destroy_consumer_def trace_ext_def by auto

lemma frame_g_wither_geom: "frame P w w' \<Longrightarrow> frame P w (g_wither_geom w')"
  unfolding frame_def g_wither_geom_def trace_ext_def by auto

lemma frame_g_attach: "g_attach cp pp w' = Some (e, w'') \<Longrightarrow> frame P w w' \<Longrightarrow> frame P w w''"
  unfolding g_attach_def
  by (auto simp: Let_def bind_eq_Some_conv frame_def trace_ext_def upd_consumer_def split: prod.splits if_splits)

lemma frame_g_access: "g_access cp dr dw de w' = Some (e, w'') \<Longrightarrow> frame P w w' \<Longrightarrow> frame P w w''"
  unfolding g_access_def
  by (auto simp: Let_def bind_eq_Some_conv frame_def trace_ext_def upd_consumer_def split: prod.splits if_splits)

lemma frame_g_io_request: "g_io_request bp cp w' = Some w'' \<Longrightarrow> P (G_IO_REQUEST cp (bp\<lparr>bio_to := cp_provider (the (w_consumer w' cp))\<rparr>)) \<Longrightarrow> frame P w w' \<Longrightarrow> frame P w w''"
  unfolding g_io_request_def
  by (auto simp: bind_eq_Some_conv intro: frame_emit)

lemma frame_biowait: "biowait w' = (e, w'') \<Longrightarrow> frame P w w' \<Longrightarrow> frame P w w''"
  unfolding biowait_def by (auto simp: Let_def frame_def trace_ext_def split: prod.splits)

lemmas frame_intros = frame_emit frame_upd_consumer frame_tsd_None frame_physpath frame_path
  frame_g_new_geomf frame_g_detach frame_g_destroy_consumer frame_g_wither_geom

definition quiet :: "event \<Rightarrow> bool" where
  "quiet e \<longleftrightarrow> (case e of
      ZFS_LOG m \<Rightarrow> m \<noteq> LOG_reading_guids \<and> m \<noteq> LOG_searching_by_guids
    | SPA_ASYNC_REQUEST _ _ \<Rightarrow> True
    | TSLEEP \<Rightarrow> True
    | _ \<Rightarrow> False)"

definition benign :: "event \<Rightarrow> bool" where
  "benign e \<longleftrightarrow> (case e of ZFS_POST_REMOVE _ _ \<Rightarrow> False | _ \<Rightarrow> True)"

lemma quiet_simps [simp]:
  "quiet (ZFS_LOG m) \<longleftrightarrow> m \<noteq> LOG_reading_guids \<and> m \<noteq> LOG_searching_by_guids"
  "quiet (SPA_ASYNC_REQUEST s k)" "quiet TSLEEP" "\<not> quiet (G_IO_REQUEST cp b)"
  "\<not> quiet (ZFS_POST_REMOVE s vd)" "\<not> quiet (ZIO_INTERRUPT z)"
  by (simp_all add: quiet_def)

lemma benign_simps [simp]:
  "benign (ZFS_LOG m)" "benign (SPA_ASYNC_REQUEST s k)" "benign TSLEEP" "benign (G_IO_REQUEST cp b)"
  "\<not> benign (ZFS_POST_REMOVE s vd)" "benign (ZIO_INTERRUPT z)"
  by (simp_all add: benign_def)

lemma quiet_benign: "quiet e \<Longrightarrow> benign e"
  by (cases e) simp_all

lemma frame_quiet_benign: "frame quiet w w' \<Longrightarrow> frame benign w w'"
  by (erule frame_mono) (rule quiet_benign)

lemma frame_attrchanged:
  assumes "vdev_geom_attrchanged cp attr w' = Some w''" "frame quiet w w'"
  shows "frame quiet w w''"
  using assms
  unfolding vdev_geom_attrchanged_def
  apply (auto simp: bind_eq_Some_conv Let_def split: if_splits option.splits)
   apply ((assumption | erule frame_g_access | rule frame_intros | simp)+)
  done

lemma frame_attach_consumer:
  assumes "vdev_geom_attach_consumer pp w' = Some (r, w'')" "frame quiet w w'"
  shows "frame quiet w w''"
  using assms
  unfolding vdev_geom_attach_consumer_def
  apply (auto simp: bind_eq_Some_conv Let_def split: if_splits option.splits prod.splits)
   apply ((assumption | erule frame_g_access frame_g_attach | erule frame_g_new_consumer[rotated] | rule frame_intros | simp)+)
  done

lemma frame_attach:
  assumes "vdev_geom_attach pp vd w' = Some (r, w'')" "frame quiet w w'"
  shows "frame quiet w w''"
  using assms
  unfolding vdev_geom_attach_def
  apply (auto simp: bind_eq_Some_conv Let_def split: if_splits option.splits prod.splits)
   apply ((assumption | erule frame_attrchanged frame_attach_consumer | rule frame_intros | simp)+)
  done

lemma vdev_geom_detach_cases:
  assumes "vdev_geom_detach cp w = Some w'"
  obtains c e w1 c1 w2 where
    "w_consumer w cp = Some c"
    "g_access cp (- 1) 0 (- 1)
       (case cp_private c of None \<Rightarrow> emit (ZFS_LOG LOG_closing_access) w
        | Some vd \<Rightarrow> upd_consumer cp (\<lambda>c. c\<lparr>cp_private := None\<rparr>)
            (upd_vdev vd (\<lambda>v. v\<lparr>vdev_tsd := None\<rparr>) (emit (ZFS_LOG LOG_closing_access) w))) =
     Some (e, w1)"
    "w_consumer w1 cp = Some c1"
    "(if acr c1 = 0 \<and> ace c1 = 0
      then (if 0 < acw c1 then g_access cp 0 (- acw c1) 0 (emit (ZFS_LOG LOG_destroyed_consumer) w1)
            else Some (0, emit (ZFS_LOG LOG_destroyed_consumer) w1)) \<bind>
           (\<lambda>(_, w). Some (g_destroy_consumer cp (g_detach cp w)))
      else Some w1) = Some w2"
    "w' = (if w_geom w2 = Some [] then g_wither_geom (emit (ZFS_LOG LOG_destroyed_geom) w2) else w2)"
proof -
  from assms obtain c e w1 c1 w2 where f:
    "w_consumer w cp = Some c"
    "g_access cp (- 1) 0 (- 1)
       (case cp_private c of None \<Rightarrow> emit (ZFS_LOG LOG_closing_access) w
        | Some vd \<Rightarrow> upd_consumer cp (\<lambda>c. c\<lparr>cp_private := None\<rparr>)
            (upd_vdev vd (\<lambda>v. v\<lparr>vdev_tsd := None\<rparr>) (emit (ZFS_LOG LOG_closing_access) w))) =
     Some (e, w1)"
    "w_consumer w1 cp = Some c1"
    "(if acr c1 = 0 \<and> ace c1 = 0
      then (if 0 < acw c1 then g_access cp 0 (- acw c1) 0 (emit (ZFS_LOG LOG_destroyed_consumer) w1)
            else Some (0, emit (ZFS_LOG LOG_destroyed_consumer) w1)) \<bind>
           (\<lambda>(_, w). Some (g_destroy_consumer cp (g_detach cp w)))
      else Some w1) = Some w2"
    "(if w_geom w2 = Some [] then Some (g_wither_geom (emit (ZFS_LOG LOG_destroyed_geom) w2))
      else Some w2) = Some w'"
    unfolding vdev_geom_detach_def Let_def
    by (clarsimp simp: bind_eq_Some_conv)
  from f(5)
  have "w' = (if w_geom w2 = Some [] then g_wither_geom (emit (ZFS_LOG LOG_destroyed_geom) w2) else w2)"
    by (simp split: if_splits)
  with f(1-4) show thesis by (rule that)
qed

lemma frame_detach:
  assumes "vdev_geom_detach cp w' = Some w''" "frame quiet w w'"
  shows "frame quiet w w''"
proof -
  from assms(1) obtain c e w1 c1 w2 where
    c: "w_consumer w' cp = Some c" and
    a1: "g_access cp (- 1) 0 (- 1)
       (case cp_private c of None \<Rightarrow> emit (ZFS_LOG LOG_closing_access) w'
        | Some vd \<Rightarrow> upd_consumer cp (\<lambda>c. c\<lparr>cp_private := None\<rparr>)
            (upd_vdev vd (\<lambda>v. v\<lparr>vdev_tsd := None\<rparr>) (emit (ZFS_LOG LOG_closing_access) w'))) =
     Some (e, w1)" and
    c1: "w_consumer w1 cp = Some c1" and
    w2: "(if acr c1 = 0 \<and> ace c1 = 0
      then (if 0 < acw c1 then g_access cp 0 (- acw c1) 0 (emit (ZFS_LOG LOG_destroyed_consumer) w1)
            else Some (0, emit (ZFS_LOG LOG_destroyed_consumer) w1)) \<bind>
           (\<lambda>(_, w). Some (g_destroy_consumer cp (g_detach cp w)))
      else Some w1) = Some w2" and
    w'': "w'' = (if w_geom w2 = Some [] then g_wither_geom (emit (ZFS_LOG LOG_destroyed_geom) w2) else w2)"
    by (rule vdev_geom_detach_cases)
  have "frame quiet w (case cp_private c of None \<Rightarrow> emit (ZFS_LOG LOG_closing_access) w'
        | Some vd \<Rightarrow> upd_consumer cp (\<lambda>c. c\<lparr>cp_private := None\<rparr>)
            (upd_vdev vd (\<lambda>v. v\<lparr>vdev_tsd := None\<rparr>) (emit (ZFS_LOG LOG_closing_access) w')))"
    using assms(2) by (cases "cp_private c") (auto intro!: frame_intros)
  with a1 have f1: "frame quiet w w1" by (rule frame_g_access)
  have f2: "frame quiet w w2"
    using w2 f1
    apply (clarsimp simp: bind_eq_Some_conv split: if_splits)
      apply ((assumption | erule frame_g_access | rule frame_intros | simp)+)
    done
  show ?thesis unfolding w'' using f2 by (auto intro!: frame_intros)
qed


lemmas frame_benign_intros = frame_intros[where P = benign]

lemma frame_attach_benign:
  "vdev_geom_attach pp vd w' = Some (r, w'') \<Longrightarrow> frame benign w w' \<Longrightarrow> frame benign w w''"
  by (blast intro: frame_trans frame_quiet_benign frame_attach frame_refl)

lemma frame_detach_benign:
  "vdev_geom_detach cp w' = Some w'' \<Longrightarrow> frame benign w w' \<Longrightarrow> frame benign w w''"
  by (blast intro: frame_trans frame_quiet_benign frame_detach frame_refl)

lemma frame_io_step:
  assumes "g_io_request bp cp w = Some w1" "biowait w1 = (e, w2)"
  shows "frame benign w w2"
  using assms
  by (auto simp: g_io_request_def biowait_def Let_def bind_eq_Some_conv frame_def trace_ext_def
      emit_def split: prod.splits)

lemma frame_io_loop_aux:
  assumes "vdev_geom_io_loop cp cmd maxio offset off p sz error w' = Some r"
  shows "frame benign w' (snd r)"
proof (rule vdev_geom_io_loop.raw_induct[where
      P = "\<lambda>cp cmd maxio offset off p sz error w' r. frame benign w' (snd r)", OF _ assms])
  fix loop :: "nat \<Rightarrow> bio_cmd \<Rightarrow> int \<Rightarrow> int \<Rightarrow> int \<Rightarrow> int \<Rightarrow> int \<Rightarrow> errno \<Rightarrow> world \<Rightarrow> (errno \<times> world) option"
  fix cp cmd maxio offset off p sz error w r
  assume IH: "\<And>cp cmd maxio offset off p sz error w r.
      loop cp cmd maxio offset off p sz error w = Some r \<Longrightarrow> frame benign w (snd r)"
  assume body: "(if off < offset
      then case g_io_request
                 (g_alloc_bio\<lparr>bio_cmd := cmd, bio_done := False, bio_offset := off,
                     bio_length := min sz maxio, bio_data := Some p\<rparr>) cp w of
           None \<Rightarrow> None
           | Some w1 \<Rightarrow>
               case biowait w1 of
               (error, w2) \<Rightarrow>
                 if error \<noteq> 0 then Some (error, w2)
                 else if off_t_ok (off + maxio) \<and> off_t_ok (sz - maxio)
                 then loop cp cmd maxio offset (off + maxio) (p + maxio) (sz - maxio) error w2
                 else None
      else Some (error, w)) = Some r"
  show "frame benign w (snd r)"
  proof (cases "off < offset")
    case False
    with body show ?thesis by auto
  next
    case True
    with body obtain w1 e w2 where
      req: "g_io_request (g_alloc_bio\<lparr>bio_cmd := cmd, bio_done := False, bio_offset := off,
                     bio_length := min sz maxio, bio_data := Some p\<rparr>) cp w = Some w1" and
      bw: "biowait w1 = (e, w2)" and
      rest: "(if e \<noteq> 0 then Some (e, w2)
              else if off_t_ok (off + maxio) \<and> off_t_ok (sz - maxio)
              then loop cp cmd maxio offset (off + maxio) (p + maxio) (sz - maxio) e w2
              else None) = Some r"
      by (auto split: option.splits prod.splits)
    have f: "frame benign w w2" using req bw by (rule frame_io_step)
    show ?thesis
    proof (cases "e \<noteq> 0")
      case True
      with rest f show ?thesis by auto
    next
      case False
      with rest have "frame benign w2 (snd r)" by (auto intro: IH split: if_splits)
      with f show ?thesis by (rule frame_trans)
    qed
  qed
qed

lemma frame_io_loop:
  "vdev_geom_io_loop cp cmd maxio offset off p sz error w' = Some (e, w'') \<Longrightarrow>
   frame benign w w' \<Longrightarrow> frame benign w w''"
  using frame_io_loop_aux frame_trans by fastforce

lemma frame_io:
  "vdev_geom_io K cp cmd data offset sz w' = Some (e, w'') \<Longrightarrow>
   frame benign w w' \<Longrightarrow> frame benign w w''"
  unfolding vdev_geom_io_def
  by (auto simp: bind_eq_Some_conv Let_def split: if_splits elim: frame_io_loop)

lemma frame_read_guids_loop:
  "vdev_geom_read_guids_loop K cp pp psize sz ls g w' = Some (g', w'') \<Longrightarrow>
   frame benign w w' \<Longrightarrow> frame benign w w''"
proof (induction ls arbitrary: g w')
  case Nil
  then show ?case by simp
next
  case (Cons l ls)
  from Cons.prems show ?case
    by (auto simp: Let_def split: if_splits option.splits prod.splits
        intro: Cons.IH dest: frame_io)
qed

lemma frame_read_guids:
  "vdev_geom_read_guids K cp w' = Some (g, w'') \<Longrightarrow> frame benign w w' \<Longrightarrow> frame benign w w''"
  unfolding vdev_geom_read_guids_def
  apply (auto simp: bind_eq_Some_conv Let_def split: if_splits)
   apply ((assumption | erule frame_read_guids_loop | rule frame_benign_intros | simp)+)
  done


lemma frame_attach_by_guids_loop:
  "vdev_geom_attach_by_guids_loop K zcp vd pps w' = Some (r, w'') \<Longrightarrow>
   frame benign w w' \<Longrightarrow> frame benign w w''"
proof (induction pps arbitrary: w')
  case Nil
  then show ?case by simp
next
  case (Cons pp pps)
  from Cons.prems show ?case
    apply (clarsimp simp: Let_def split: if_splits option.splits prod.splits)
       apply (erule Cons.IH, assumption)
      apply (erule Cons.IH,
        (rule frame_benign_intros | erule frame_g_access frame_g_attach frame_read_guids
           frame_attach_benign | assumption | simp)+)+
    done
qed


lemma frame_attach_by_guids:
  "vdev_geom_attach_by_guids K vd w' = Some (r, w'') \<Longrightarrow> frame benign w w' \<Longrightarrow> frame benign w w''"
  unfolding vdev_geom_attach_by_guids_def
  apply (clarsimp simp: bind_eq_Some_conv Let_def split: prod.splits)
  apply ((assumption | erule frame_attach_by_guids_loop | erule frame_g_new_consumer[rotated] | rule frame_benign_intros | simp)+)
  done

lemma frame_open_by_guids:
  "vdev_geom_open_by_guids K vd w' = Some (r, w'') \<Longrightarrow> frame benign w w' \<Longrightarrow> frame benign w w''"
  unfolding vdev_geom_open_by_guids_def
  apply (auto simp: bind_eq_Some_conv Let_def split: option.splits)
   apply ((assumption | erule frame_attach_by_guids | rule frame_benign_intros | simp)+)
  done

lemma frame_open_by_path:
  "vdev_geom_open_by_path K vd check_guid w' = Some (r, w'') \<Longrightarrow> frame benign w w' \<Longrightarrow>
   frame benign w w''"
  unfolding vdev_geom_open_by_path_def
  apply (auto simp: bind_eq_Some_conv Let_def split: option.splits if_splits)
     apply ((assumption | erule frame_attach_benign frame_read_guids frame_detach_benign | rule frame_benign_intros | simp)+)
  done

lemma frame_open_find:
  "vdev_geom_open_find K vd w' = Some (r, w'') \<Longrightarrow> frame benign w w' \<Longrightarrow> frame benign w w''"
  unfolding vdev_geom_open_find_def
  apply (auto simp: bind_eq_Some_conv Let_def split: option.splits if_splits)
     apply ((assumption | erule frame_open_by_path frame_open_by_guids | rule frame_benign_intros | simp)+)
  done

lemma frame_open_retry:
  "vdev_geom_open_retry n cp error w' = Some (e, w'') \<Longrightarrow> frame quiet w w' \<Longrightarrow> frame quiet w w''"
proof (induction n arbitrary: error w')
  case 0
  then show ?case by simp
next
  case (Suc n)
  from Suc.prems show ?case
    apply (clarsimp split: option.splits if_splits)
     apply (erule frame_g_access, assumption)
    apply (erule Suc.IH)
    apply ((assumption | erule frame_g_access | rule frame_intros | simp)+)
    done
qed

lemma frame_open_check:
  "vdev_geom_open_check K vd cp w' = Some (r, w'') \<Longrightarrow> frame quiet w w' \<Longrightarrow> frame quiet w w''"
  unfolding vdev_geom_open_check_def
  apply (auto simp: bind_eq_Some_conv Let_def split: option.splits if_splits)
      apply ((assumption | erule frame_open_retry frame_detach | rule frame_intros | simp)+)
  done

lemma frame_close:
  "vdev_geom_close vd w' = Some w'' \<Longrightarrow> frame quiet w w' \<Longrightarrow> frame quiet w w''"
  unfolding vdev_geom_close_def
  by (auto split: option.splits elim: frame_detach)


subsection \<open>The effect of open\<close>

lemma vdev_geom_open_cases:
  assumes "vdev_geom_open K vd w = Some (e, w')"
  obtains
    (bad_path) "e = EINVAL" "w' = upd_vdev vd (\<lambda>v. v\<lparr>vs_aux := VDEV_AUX_BAD_LABEL\<rparr>) w"
  | (failed) cp w1 w2 where
      "vdev_geom_open_find K vd (upd_vdev vd (\<lambda>v. v\<lparr>vdev_tsd := None\<rparr>) w) = Some (cp, w1)"
      "vdev_geom_open_check K vd cp w1 = Some ((None, e), w2)"
      "w' = upd_vdev vd (\<lambda>v. v\<lparr>vs_aux := VDEV_AUX_OPEN_FAILED\<rparr>) w2"
  | (opened) cp w1 c e0 w2 pp where
      "vdev_geom_open_find K vd (upd_vdev vd (\<lambda>v. v\<lparr>vdev_tsd := None\<rparr>) w) = Some (cp, w1)"
      "vdev_geom_open_check K vd cp w1 = Some ((Some c, e0), w2)"
      "provider_of c w2 = Some pp" "e = 0"
      "w' = upd_vdev vd (\<lambda>v. v\<lparr>vdev_nowritecache := False\<rparr>)
              ((upd_vdev vd (\<lambda>v. v\<lparr>vdev_tsd := Some c\<rparr>) w2)
                 \<lparr>w_out := (w_out w2)(vd := \<lparr>out_psize = pp_mediasize pp,
                     out_max_psize = pp_mediasize pp,
                     out_ashift = ashift_of K (pp_sectorsize pp)\<rparr>)\<rparr>)"
  using assms unfolding vdev_geom_open_def Let_def
  apply (simp split: if_splits)
  apply (clarsimp simp: bind_eq_Some_conv upd_vdev_def split: option.splits)
  done

lemma errno_nonzero [simp]: "ENOENT \<noteq> 0" "EINVAL \<noteq> 0" "ENOTSUP \<noteq> 0" "EIO \<noteq> 0" "ENXIO \<noteq> 0"
  by (simp_all add: ENOENT_def EINVAL_def ENOTSUP_def EIO_def ENXIO_def)

lemma open_retry_result:
  "vdev_geom_open_retry n cp error w = Some (e, w') \<Longrightarrow> e = 0 \<or> (e = error \<and> n = 0) \<or> (e \<noteq> 0 \<and> 0 < n)"
  by (induction n arbitrary: error w) (auto split: option.splits if_splits)

lemma open_check_None:
  assumes "vdev_geom_open_check K vd cp w = Some ((None, e), w')"
  shows "e \<noteq> 0"
  using assms unfolding vdev_geom_open_check_def
  by (auto simp: bind_eq_Some_conv split: option.splits if_splits)


lemma open_effect:
  assumes "vdev_geom_open K vd w = Some (e, w')"
  shows "w_provider w' = w_provider w \<and> trace_ext benign w w' \<and>
    (\<forall>u. vdev_notrim (w_vdev w' u) = vdev_notrim (w_vdev w u) \<and>
         vdev_remove_wanted (w_vdev w' u) = vdev_remove_wanted (w_vdev w u) \<and>
         vdev_spa (w_vdev w' u) = vdev_spa (w_vdev w u) \<and>
         vdev_guid (w_vdev w' u) = vdev_guid (w_vdev w u)) \<and>
    (\<forall>u. u \<noteq> vd \<longrightarrow> vdev_kept (w_vdev w u) (w_vdev w' u) \<and> w_out w' u = w_out w u) \<and>
    (e \<noteq> 0 \<longrightarrow> vdev_nowritecache (w_vdev w' vd) = vdev_nowritecache (w_vdev w vd) \<and>
                 w_out w' vd = w_out w vd) \<and>
    (e = 0 \<longrightarrow> \<not> vdev_nowritecache (w_vdev w' vd))"
  using assms
proof (cases rule: vdev_geom_open_cases)
  case bad_path
  then show ?thesis by (simp add: upd_vdev_def vdev_kept_def trace_ext_def)
next
  case (failed cp w1 w2)
  have "frame benign w (upd_vdev vd (\<lambda>v. v\<lparr>vdev_tsd := None\<rparr>) w)"
    by (intro frame_benign_intros frame_refl)
  with failed(1) have "frame benign w w1" by (rule frame_open_find)
  moreover have "frame benign w1 w2"
    using failed(2) by (blast intro: frame_quiet_benign frame_open_check frame_refl)
  ultimately have f: "frame benign w w2" by (rule frame_trans)
  have "e \<noteq> 0" using failed(2) by (rule open_check_None)
  then show ?thesis using f unfolding failed(3)
    by (auto simp: frame_def upd_vdev_def vdev_kept_def trace_ext_def)
next
  case (opened cp w1 c e0 w2 pp)
  have "frame benign w (upd_vdev vd (\<lambda>v. v\<lparr>vdev_tsd := None\<rparr>) w)"
    by (intro frame_benign_intros frame_refl)
  with opened(1) have "frame benign w w1" by (rule frame_open_find)
  moreover have "frame benign w1 w2"
    using opened(2) by (blast intro: frame_quiet_benign frame_open_check frame_refl)
  ultimately have f: "frame benign w w2" by (rule frame_trans)
  show ?thesis using f unfolding opened(5) opened(4)
    by (auto simp: frame_def upd_vdev_def vdev_kept_def trace_ext_def)
qed


subsection \<open>What one event can change\<close>

lemma io_start_world:
  "vdev_geom_io_start K zio w = Some (r, w') \<Longrightarrow>
     w' = w \<or> (\<exists>cp bp. w' = emit (G_IO_REQUEST cp bp) w)"
  unfolding vdev_geom_io_start_def vdev_geom_io_sendreq_def g_io_request_def
  by (auto simp: Let_def bind_eq_Some_conv split: if_splits ioctl_cmd.splits option.splits)


lemma io_intr_notsup_effect:
  "w_provider (vdev_geom_io_intr_notsup bp vd w) = w_provider w \<and>
   w_out (vdev_geom_io_intr_notsup bp vd w) = w_out w \<and>
   w_trace (vdev_geom_io_intr_notsup bp vd w) = w_trace w \<and>
   (vdev_nowritecache (w_vdev w u) \<longrightarrow> vdev_nowritecache (w_vdev (vdev_geom_io_intr_notsup bp vd w) u)) \<and>
   (vdev_notrim (w_vdev w u) \<longrightarrow> vdev_notrim (w_vdev (vdev_geom_io_intr_notsup bp vd w) u)) \<and>
   vdev_remove_wanted (w_vdev (vdev_geom_io_intr_notsup bp vd w) u) = vdev_remove_wanted (w_vdev w u)"
  by (auto simp: vdev_geom_io_intr_notsup_def Let_def upd_vdev_def)

lemma io_intr_removal_effect:
  assumes "vdev_geom_io_intr_removal bp zio w = Some w'"
  shows "w_provider w' = w_provider w \<and> w_out w' = w_out w \<and>
    vdev_nowritecache (w_vdev w' u) = vdev_nowritecache (w_vdev w u) \<and>
    vdev_notrim (w_vdev w' u) = vdev_notrim (w_vdev w u) \<and>
    (vdev_remove_wanted (w_vdev w u) \<longrightarrow> vdev_remove_wanted (w_vdev w' u)) \<and>
    (\<exists>es. w_trace w' = w_trace w @ es \<and>
       (vdev_remove_wanted (w_vdev w u) \<longrightarrow> (\<forall>s. ZFS_POST_REMOVE s u \<notin> set es)))"
  using assms unfolding vdev_geom_io_intr_removal_def
  by (auto simp: Let_def bind_eq_Some_conv emit_def upd_vdev_def split: if_splits)

lemma io_intr_effect:
  assumes "vdev_geom_io_intr bp w = Some w'"
  shows "w_provider w' = w_provider w \<and> w_out w' = w_out w \<and>
    (vdev_nowritecache (w_vdev w u) \<longrightarrow> vdev_nowritecache (w_vdev w' u)) \<and>
    (vdev_notrim (w_vdev w u) \<longrightarrow> vdev_notrim (w_vdev w' u)) \<and>
    (vdev_remove_wanted (w_vdev w u) \<longrightarrow> vdev_remove_wanted (w_vdev w' u)) \<and>
    (\<exists>es. w_trace w' = w_trace w @ es \<and>
       (vdev_remove_wanted (w_vdev w u) \<longrightarrow> (\<forall>s. ZFS_POST_REMOVE s u \<notin> set es)))"
proof -
  from assms obtain zio w2 where
    r: "vdev_geom_io_intr_removal bp (zio\<lparr>io_error := vdev_geom_io_intr_error bp\<rparr>)
          (vdev_geom_io_intr_notsup bp (io_vd zio) w) = Some w2" and
    w': "w' = emit (ZIO_INTERRUPT (zio\<lparr>io_error := vdev_geom_io_intr_error bp\<rparr>)) w2"
    unfolding vdev_geom_io_intr_def by (auto simp: bind_eq_Some_conv Let_def)
  from io_intr_removal_effect[OF r, of u] io_intr_notsup_effect[where bp = bp and vd = "io_vd zio" and w = w and u = u]
  show ?thesis unfolding w' by (auto simp: emit_def)
qed


text \<open>
  \<open>step_ok ev u w w'\<close> collects what holds for vdev \<open>u\<close> across one event, and
  \<open>run_ok evs u w w'\<close> across a list of events: the providers stay, a capability flag
  that is set stays set (the flush flag unless the event opens \<open>u\<close>), a removal that is
  wanted stays wanted and is not reported a second time, and only an open of \<open>u\<close> writes
  the cells of \<open>u\<close>.
\<close>

definition step_ok :: "vdev_event \<Rightarrow> nat \<Rightarrow> world \<Rightarrow> world \<Rightarrow> bool" where
  "step_ok ev u w w' \<longleftrightarrow>
     w_provider w' = w_provider w \<and>
     (vdev_nowritecache (w_vdev w u) \<and> ev \<noteq> EV_OPEN u \<longrightarrow> vdev_nowritecache (w_vdev w' u)) \<and>
     (vdev_notrim (w_vdev w u) \<longrightarrow> vdev_notrim (w_vdev w' u)) \<and>
     (vdev_remove_wanted (w_vdev w u) \<longrightarrow> vdev_remove_wanted (w_vdev w' u)) \<and>
     (ev \<noteq> EV_OPEN u \<longrightarrow> w_out w' u = w_out w u) \<and>
     (\<exists>es. w_trace w' = w_trace w @ es \<and>
        (vdev_remove_wanted (w_vdev w u) \<longrightarrow> (\<forall>s. ZFS_POST_REMOVE s u \<notin> set es)))"

lemma benign_no_post_remove: "list_all benign es \<Longrightarrow> ZFS_POST_REMOVE s u \<notin> set es"
  by (auto simp: list_all_iff)

lemma frame_step_ok: "frame benign w w' \<Longrightarrow> step_ok ev u w w'"
  unfolding frame_def step_ok_def vdev_kept_def trace_ext_def
  by (auto dest: benign_no_post_remove)

lemma step_effect:
  assumes "step K ev w = Some w'"
  shows "step_ok ev u w w'"
proof (cases ev)
  case (EV_OPEN vd)
  with assms obtain e where o: "vdev_geom_open K vd w = Some (e, w')" by auto
  from open_effect[OF o] show ?thesis
    unfolding step_ok_def EV_OPEN vdev_kept_def trace_ext_def
    by (cases "u = vd") (auto dest: benign_no_post_remove)
next
  case (EV_CLOSE vd)
  with assms have "vdev_geom_close vd w = Some w'" by simp
  then have "frame quiet w w'" by (rule frame_close) simp
  then show ?thesis by (intro frame_step_ok frame_quiet_benign)
next
  case (EV_IO_START zio)
  with assms obtain r where "vdev_geom_io_start K zio w = Some (r, w')" by auto
  from io_start_world[OF this] show ?thesis
    by (auto simp: step_ok_def emit_def)
next
  case (EV_IO_INTR bp)
  with assms have "vdev_geom_io_intr bp w = Some w'" by simp
  from io_intr_effect[OF this, of u] show ?thesis
    by (auto simp: step_ok_def)
next
  case (EV_IO_DONE zio)
  with assms show ?thesis by (auto simp: step_ok_def vdev_geom_io_done_def)
next
  case (EV_HOLD vd)
  with assms show ?thesis by (auto simp: step_ok_def vdev_geom_hold_def)
next
  case (EV_RELE vd)
  with assms show ?thesis by (auto simp: step_ok_def vdev_geom_rele_def)
next
  case (EV_ORPHAN cp)
  with assms show ?thesis
    by (auto simp: step_ok_def vdev_geom_orphan_def bind_eq_Some_conv Let_def emit_def upd_vdev_def
        split: option.splits)
next
  case (EV_ATTRCHANGED cp attr)
  with assms have "vdev_geom_attrchanged cp attr w = Some w'" by simp
  then have "frame quiet w w'" by (rule frame_attrchanged) simp
  then show ?thesis by (intro frame_step_ok frame_quiet_benign)
qed

definition run_ok :: "vdev_event list \<Rightarrow> nat \<Rightarrow> world \<Rightarrow> world \<Rightarrow> bool" where
  "run_ok evs u w w' \<longleftrightarrow>
     w_provider w' = w_provider w \<and>
     (vdev_nowritecache (w_vdev w u) \<and> EV_OPEN u \<notin> set evs \<longrightarrow> vdev_nowritecache (w_vdev w' u)) \<and>
     (vdev_notrim (w_vdev w u) \<longrightarrow> vdev_notrim (w_vdev w' u)) \<and>
     (vdev_remove_wanted (w_vdev w u) \<longrightarrow> vdev_remove_wanted (w_vdev w' u)) \<and>
     (EV_OPEN u \<notin> set evs \<longrightarrow> w_out w' u = w_out w u) \<and>
     (\<exists>es. w_trace w' = w_trace w @ es \<and>
        (vdev_remove_wanted (w_vdev w u) \<longrightarrow> (\<forall>s. ZFS_POST_REMOVE s u \<notin> set es)))"

lemma run_ok_Cons:
  assumes s: "step_ok ev u w w1" and r: "run_ok evs u w1 w'"
  shows "run_ok (ev # evs) u w w'"
proof -
  from s have s1: "w_provider w1 = w_provider w"
    and s2: "vdev_nowritecache (w_vdev w u) \<and> ev \<noteq> EV_OPEN u \<longrightarrow> vdev_nowritecache (w_vdev w1 u)"
    and s3: "vdev_notrim (w_vdev w u) \<longrightarrow> vdev_notrim (w_vdev w1 u)"
    and s4: "vdev_remove_wanted (w_vdev w u) \<longrightarrow> vdev_remove_wanted (w_vdev w1 u)"
    and s5: "ev \<noteq> EV_OPEN u \<longrightarrow> w_out w1 u = w_out w u"
    and s6: "\<exists>es. w_trace w1 = w_trace w @ es \<and>
        (vdev_remove_wanted (w_vdev w u) \<longrightarrow> (\<forall>s. ZFS_POST_REMOVE s u \<notin> set es))"
    unfolding step_ok_def by blast+
  from r have r1: "w_provider w' = w_provider w1"
    and r2: "vdev_nowritecache (w_vdev w1 u) \<and> EV_OPEN u \<notin> set evs \<longrightarrow> vdev_nowritecache (w_vdev w' u)"
    and r3: "vdev_notrim (w_vdev w1 u) \<longrightarrow> vdev_notrim (w_vdev w' u)"
    and r4: "vdev_remove_wanted (w_vdev w1 u) \<longrightarrow> vdev_remove_wanted (w_vdev w' u)"
    and r5: "EV_OPEN u \<notin> set evs \<longrightarrow> w_out w' u = w_out w1 u"
    and r6: "\<exists>es. w_trace w' = w_trace w1 @ es \<and>
        (vdev_remove_wanted (w_vdev w1 u) \<longrightarrow> (\<forall>s. ZFS_POST_REMOVE s u \<notin> set es))"
    unfolding run_ok_def by blast+
  from s6 obtain es1 where e1: "w_trace w1 = w_trace w @ es1"
    "vdev_remove_wanted (w_vdev w u) \<longrightarrow> (\<forall>s. ZFS_POST_REMOVE s u \<notin> set es1)" by blast
  from r6 obtain es2 where e2: "w_trace w' = w_trace w1 @ es2"
    "vdev_remove_wanted (w_vdev w1 u) \<longrightarrow> (\<forall>s. ZFS_POST_REMOVE s u \<notin> set es2)" by blast
  have t: "\<exists>es. w_trace w' = w_trace w @ es \<and>
        (vdev_remove_wanted (w_vdev w u) \<longrightarrow> (\<forall>s. ZFS_POST_REMOVE s u \<notin> set es))"
    using e1 e2 s4 by (intro exI[of _ "es1 @ es2"]) simp
  have p: "w_provider w' = w_provider w" using s1 r1 by simp
  have a: "vdev_nowritecache (w_vdev w u) \<and> EV_OPEN u \<notin> set (ev # evs) \<longrightarrow>
       vdev_nowritecache (w_vdev w' u)" using s2 r2 by auto
  have b: "vdev_notrim (w_vdev w u) \<longrightarrow> vdev_notrim (w_vdev w' u)" using s3 r3 by blast
  have c: "vdev_remove_wanted (w_vdev w u) \<longrightarrow> vdev_remove_wanted (w_vdev w' u)"
    using s4 r4 by blast
  have d: "EV_OPEN u \<notin> set (ev # evs) \<longrightarrow> w_out w' u = w_out w u" using s5 r5 by auto
  show ?thesis unfolding run_ok_def using p a b c d t by blast
qed

lemma steps_effect:
  "steps K evs w = Some w' \<Longrightarrow> run_ok evs u w w'"
proof (induction evs arbitrary: w)
  case Nil
  then show ?case by (simp add: run_ok_def)
next
  case (Cons ev evs)
  from Cons.prems obtain w1 where
    s1: "step K ev w = Some w1" and s2: "steps K evs w1 = Some w'"
    by (auto split: option.splits)
  from step_effect[OF s1, of u] Cons.IH[OF s2]
  show ?case by (rule run_ok_Cons)
qed


subsection \<open>Flush on a device that does not support it\<close>

text \<open>
  Claim C1, as amended.  A flush submitted to a vdev whose flush-unsupported flag is set
  completes at once and leaves the whole store as it is, so nothing is sent to the
  device.  The error of the request is \<^verbatim>\<open>ENOTSUP\<close>, not 0; it is \<^verbatim>\<open>ENXIO\<close> when the vdev
  is not readable, and the error is left as it was when flushes are disabled.
\<close>

theorem flush_after_unsupported:
  assumes "io_type zio = ZIO_TYPE_IOCTL" and "io_cmd zio = DKIOCFLUSHWRITECACHE"
    and "vdev_nowritecache (w_vdev w (io_vd zio))"
  shows "vdev_geom_io_start K zio w =
     Some ((ZIO_PIPELINE_CONTINUE,
            zio\<lparr>io_error :=
              if \<not> vdev_readable K (w_vdev w (io_vd zio)) then ENXIO
              else if zfs_nocacheflush w \<or> vdev_geom_bio_flush_disable w then io_error zio
              else ENOTSUP\<rparr>), w)"
  using assms by (simp add: vdev_geom_io_start_def Let_def)

theorem flush_after_unsupported_witness:
  "vdev_geom_io_start ex_K ex_flush (ex_flags True False ex_opened) =
     Some ((ZIO_PIPELINE_CONTINUE, ex_flush\<lparr>io_error := ENOTSUP\<rparr>), ex_flags True False ex_opened)"
proof -
  have h1: "io_type ex_flush = ZIO_TYPE_IOCTL" and h2: "io_cmd ex_flush = DKIOCFLUSHWRITECACHE"
    by (simp_all add: ex_flush_def)
  have h3: "vdev_nowritecache (w_vdev (ex_flags True False ex_opened) (io_vd ex_flush))"
    by (simp add: ex_flags_def)
  from flush_after_unsupported[OF h1 h2 h3, of ex_K] show ?thesis
    by (simp add: ex_defs ex_flags_def)
qed

text \<open>
  The scenario of the claim: a flush is sent, it completes with \<^verbatim>\<open>ENOTSUP\<close>, and the
  next flush is not sent but ends with the error \<^verbatim>\<open>ENOTSUP\<close>.
\<close>

theorem flush_after_unsupported_counterexample:
  "(case steps ex_K [EV_IO_START ex_flush, EV_IO_INTR ex_flush_unsupported] ex_opened of
      None \<Rightarrow> None
    | Some w \<Rightarrow>
        map_option (\<lambda>((signal, zio), w'). (signal, io_error zio, w_trace w' = w_trace w))
          (vdev_geom_io_start ex_K ex_flush w)) =
   Some (ZIO_PIPELINE_CONTINUE, ENOTSUP, True) \<and> ENOTSUP \<noteq> 0"
  by (simp add: vdev_defs ex_defs ex_flush_def ex_flush_unsupported_def geom_defs Let_def errno_defs)


subsection \<open>The capability flags\<close>

text \<open>
  Claim C2, as amended.  An open that succeeds clears the flush-unsupported flag of the
  vdev and leaves its trim-unsupported flag as it was.
\<close>

theorem open_clears_flush_flag_only:
  assumes "vdev_geom_open K vd w = Some (0, w')"
  shows "\<not> vdev_nowritecache (w_vdev w' vd) \<and>
         vdev_notrim (w_vdev w' vd) = vdev_notrim (w_vdev w vd)"
  using open_effect[OF assms] by simp

lemma ex_open_succeeds:
  obtains w' where "vdev_geom_open ex_K 0 (ex_flags c t ex_world) = Some (0, w')"
    "vdev_tsd (w_vdev w' 0) = Some 0" "vdev_notrim (w_vdev w' 0) = t"
    "w_consumer w' 0 = Some ex_consumer" "out_ashift (w_out w' 0) = 9"
    "w_provider w' = [ex_disk]"
  using ex_open_eval[of c t] by (auto simp: map_option_case split: option.splits)

theorem open_clears_flush_flag_only_witness:
  "\<exists>w'. vdev_geom_open ex_K 0 (ex_flags True True ex_world) = Some (0, w') \<and>
        \<not> vdev_nowritecache (w_vdev w' 0) \<and>
        vdev_notrim (w_vdev w' 0) = vdev_notrim (w_vdev (ex_flags True True ex_world) 0)"
proof -
  obtain w' where o: "vdev_geom_open ex_K 0 (ex_flags True True ex_world) = Some (0, w')"
    by (rule ex_open_succeeds)
  from open_clears_flush_flag_only[OF o] o show ?thesis by blast
qed

text \<open>A vdev whose trim-unsupported flag is set still has it set after a successful open.\<close>

theorem open_keeps_trim_flag_counterexample:
  "\<exists>w'. vdev_geom_open ex_K 0 (ex_flags True True ex_world) = Some (0, w') \<and>
        vdev_notrim (w_vdev w' 0)"
proof -
  obtain w' where "vdev_geom_open ex_K 0 (ex_flags True True ex_world) = Some (0, w')"
    "vdev_notrim (w_vdev w' 0) = True"
    by (rule ex_open_succeeds)
  then show ?thesis by blast
qed

text \<open>
  Claim C4.  Over any sequence of events that does not open the vdev (opens of other
  vdevs, closes, submissions, completions, orphan and attribute notifications), a
  flush-unsupported flag that is set stays set, and so does a trim-unsupported flag.
\<close>

theorem capability_flags_monotone:
  assumes "steps K evs w = Some w'" and "EV_OPEN vd \<notin> set evs"
  shows "(vdev_nowritecache (w_vdev w vd) \<longrightarrow> vdev_nowritecache (w_vdev w' vd)) \<and>
         (vdev_notrim (w_vdev w vd) \<longrightarrow> vdev_notrim (w_vdev w' vd))"
  using steps_effect[OF assms(1), of vd] assms(2) unfolding run_ok_def by blast

lemma ex_flush_run:
  "map_option (\<lambda>w. (vdev_nowritecache (w_vdev w 0), vdev_notrim (w_vdev w 0), vdev_tsd (w_vdev w 0)))
     (steps ex_K [EV_IO_START ex_flush, EV_IO_INTR ex_flush_unsupported, EV_IO_START ex_flush,
        EV_HOLD 0, EV_CLOSE 0] (ex_flags True True ex_opened)) = Some (True, True, None)"
  by (simp add: vdev_defs ex_defs ex_flags_def ex_flush_def ex_flush_unsupported_def geom_defs
      Let_def errno_defs)

theorem capability_flags_monotone_witness:
  "\<exists>w'. steps ex_K [EV_IO_START ex_flush, EV_IO_INTR ex_flush_unsupported, EV_IO_START ex_flush,
          EV_HOLD 0, EV_CLOSE 0] (ex_flags True True ex_opened) = Some w' \<and>
        vdev_nowritecache (w_vdev (ex_flags True True ex_opened) 0) \<and>
        vdev_notrim (w_vdev (ex_flags True True ex_opened) 0) \<and>
        vdev_nowritecache (w_vdev w' 0) \<and> vdev_notrim (w_vdev w' 0)"
proof -
  let ?evs = "[EV_IO_START ex_flush, EV_IO_INTR ex_flush_unsupported, EV_IO_START ex_flush,
          EV_HOLD 0, EV_CLOSE 0]"
  obtain w' where r: "steps ex_K ?evs (ex_flags True True ex_opened) = Some w'"
    using ex_flush_run by (auto simp: map_option_case split: option.splits)
  have n: "EV_OPEN 0 \<notin> set ?evs" by simp
  have f: "vdev_nowritecache (w_vdev (ex_flags True True ex_opened) 0)"
    "vdev_notrim (w_vdev (ex_flags True True ex_opened) 0)"
    by (simp_all add: ex_flags_def)
  from capability_flags_monotone[OF r n] f r show ?thesis by blast
qed


subsection \<open>Removal of a faulted device\<close>

lemma fault_reports_append [simp]:
  "fault_reports vd (es @ es') = fault_reports vd es + fault_reports vd es'"
  by (simp add: fault_reports_def)

lemma fault_reports_none: "(\<forall>s. ZFS_POST_REMOVE s vd \<notin> set es) \<Longrightarrow> fault_reports vd es = 0"
  unfolding fault_reports_def
  by (induction es) (auto split: event.splits)

lemma io_intr_first_fault:
  assumes "bio_caller1 bp = Some zio" and "vdev_geom_io_intr_error bp = EIO"
    and "bio_to bp = Some to" and "nth_opt (w_provider w) to = Some pp" and "pp_error pp \<noteq> 0"
    and "\<not> vdev_remove_wanted (w_vdev w (io_vd zio))"
  shows "\<exists>w1. vdev_geom_io_intr bp w = Some w1 \<and>
     w_trace w1 = w_trace w @ [ZFS_POST_REMOVE (io_spa zio) (io_vd zio),
        SPA_ASYNC_REQUEST (io_spa zio) SPA_ASYNC_REMOVE, ZIO_INTERRUPT (zio\<lparr>io_error := EIO\<rparr>)] \<and>
     vdev_remove_wanted (w_vdev w1 (io_vd zio))"
proof -
  let ?w0 = "vdev_geom_io_intr_notsup bp (io_vd zio) w"
  from io_intr_notsup_effect[of bp "io_vd zio" w "io_vd zio"] assms(4,6)
  have n: "nth_opt (w_provider ?w0) to = Some pp" "\<not> vdev_remove_wanted (w_vdev ?w0 (io_vd zio))"
    "w_trace ?w0 = w_trace w"
    by (simp_all add: nth_opt_def)
  show ?thesis
    using assms(1,2,3,5) n
    by (simp add: vdev_geom_io_intr_def vdev_geom_io_intr_removal_def Let_def emit_def upd_vdev_def)
qed

lemma io_intr_later:
  assumes "bio_caller1 bp = Some zio" and "vdev_remove_wanted (w_vdev w (io_vd zio))"
  shows "map_option w_trace (vdev_geom_io_intr bp w) =
     Some (w_trace w @ [ZIO_INTERRUPT (zio\<lparr>io_error := vdev_geom_io_intr_error bp\<rparr>)])"
proof -
  let ?w0 = "vdev_geom_io_intr_notsup bp (io_vd zio) w"
  from io_intr_notsup_effect[of bp "io_vd zio" w "io_vd zio"] assms(2)
  have n: "vdev_remove_wanted (w_vdev ?w0 (io_vd zio))" "w_trace ?w0 = w_trace w"
    by simp_all
  show ?thesis
    using assms(1) n
    by (simp add: vdev_geom_io_intr_def vdev_geom_io_intr_removal_def Let_def emit_def)
qed

text \<open>
  The first completion that reports \<^verbatim>\<open>EIO\<close> for a vdev whose removal is not yet wanted,
  while the fault indicator of the device is set, and what follows it.
\<close>

lemma removal_first_report:
  assumes "bio_caller1 bp = Some zio" and "vdev_geom_io_intr_error bp = EIO"
    and "bio_to bp = Some to" and "nth_opt (w_provider w) to = Some pp" and "pp_error pp \<noteq> 0"
    and "\<not> vdev_remove_wanted (w_vdev w (io_vd zio))"
  shows "\<exists>w1. vdev_geom_io_intr bp w = Some w1 \<and>
     w_trace w1 = w_trace w @ [ZFS_POST_REMOVE (io_spa zio) (io_vd zio),
        SPA_ASYNC_REQUEST (io_spa zio) SPA_ASYNC_REMOVE, ZIO_INTERRUPT (zio\<lparr>io_error := EIO\<rparr>)] \<and>
     vdev_remove_wanted (w_vdev w1 (io_vd zio)) \<and>
     (\<forall>evs w2. steps K evs w1 = Some w2 \<longrightarrow>
        vdev_remove_wanted (w_vdev w2 (io_vd zio)) \<and>
        fault_reports (io_vd zio) (w_trace w2) = fault_reports (io_vd zio) (w_trace w) + 1 \<and>
        (\<forall>bp' zio'. bio_caller1 bp' = Some zio' \<and> io_vd zio' = io_vd zio \<longrightarrow>
           map_option w_trace (vdev_geom_io_intr bp' w2) =
           Some (w_trace w2 @ [ZIO_INTERRUPT (zio'\<lparr>io_error := vdev_geom_io_intr_error bp'\<rparr>)])))"
proof -
  from io_intr_first_fault[OF assms] obtain w1 where
    i: "vdev_geom_io_intr bp w = Some w1" and
    t: "w_trace w1 = w_trace w @ [ZFS_POST_REMOVE (io_spa zio) (io_vd zio),
        SPA_ASYNC_REQUEST (io_spa zio) SPA_ASYNC_REMOVE, ZIO_INTERRUPT (zio\<lparr>io_error := EIO\<rparr>)]" and
    r: "vdev_remove_wanted (w_vdev w1 (io_vd zio))"
    by blast
  have later: "vdev_remove_wanted (w_vdev w2 (io_vd zio)) \<and>
        fault_reports (io_vd zio) (w_trace w2) = fault_reports (io_vd zio) (w_trace w) + 1 \<and>
        (\<forall>bp' zio'. bio_caller1 bp' = Some zio' \<and> io_vd zio' = io_vd zio \<longrightarrow>
           map_option w_trace (vdev_geom_io_intr bp' w2) =
           Some (w_trace w2 @ [ZIO_INTERRUPT (zio'\<lparr>io_error := vdev_geom_io_intr_error bp'\<rparr>)]))"
    if run: "steps K evs w1 = Some w2" for evs w2
  proof -
    from steps_effect[OF run, of "io_vd zio"] r
    obtain es where r2: "vdev_remove_wanted (w_vdev w2 (io_vd zio))"
      and es: "w_trace w2 = w_trace w1 @ es" "\<forall>s. ZFS_POST_REMOVE s (io_vd zio) \<notin> set es"
      unfolding run_ok_def by blast
    have "fault_reports (io_vd zio) (w_trace w2) = fault_reports (io_vd zio) (w_trace w) + 1"
      unfolding es(1) t using fault_reports_none[OF es(2)]
      by (simp add: fault_reports_def)
    moreover have "map_option w_trace (vdev_geom_io_intr bp' w2) =
           Some (w_trace w2 @ [ZIO_INTERRUPT (zio'\<lparr>io_error := vdev_geom_io_intr_error bp'\<rparr>)])"
      if "bio_caller1 bp' = Some zio'" "io_vd zio' = io_vd zio" for bp' zio'
      using io_intr_later[OF that(1)] r2 that(2) by simp
    ultimately show ?thesis using r2 by blast
  qed
  show ?thesis
    using i t r later by blast
qed

lemma io_intr_no_report:
  assumes "bio_caller1 bp = Some zio"
    and "vdev_remove_wanted (w_vdev w (io_vd zio)) \<or> vdev_geom_io_intr_error bp \<noteq> EIO"
  shows "map_option w_trace (vdev_geom_io_intr bp w) =
     Some (w_trace w @ [ZIO_INTERRUPT (zio\<lparr>io_error := vdev_geom_io_intr_error bp\<rparr>)])"
proof (cases "vdev_remove_wanted (w_vdev w (io_vd zio))")
  case True
  with assms(1) show ?thesis by (rule io_intr_later)
next
  case False
  with assms(2) have e: "vdev_geom_io_intr_error bp \<noteq> EIO" by simp
  let ?w0 = "vdev_geom_io_intr_notsup bp (io_vd zio) w"
  from io_intr_notsup_effect[of bp "io_vd zio" w "io_vd zio"]
  have n: "w_trace ?w0 = w_trace w" by simp
  show ?thesis
    using assms(1) e n
    by (simp add: vdev_geom_io_intr_def vdev_geom_io_intr_removal_def Let_def emit_def)
qed

lemma orphan_effect:
  assumes "w_consumer w cp = Some c" and "cp_private c = Some vd"
  shows "vdev_geom_orphan cp w =
     Some (emit (SPA_ASYNC_REQUEST (vdev_spa (w_vdev w vd)) SPA_ASYNC_REMOVE)
            (upd_vdev vd (\<lambda>v. v\<lparr>vdev_remove_wanted := True\<rparr>) w))"
  using assms by (simp add: vdev_geom_orphan_def Let_def upd_vdev_def)

text \<open>
  Claim C5, as amended.  First, a completion that reports the error \<^verbatim>\<open>EIO\<close> (a short
  transfer without an error included) for a vdev whose removal is not yet wanted, while
  the fault indicator of the device is set, issues the fault report, marks the removal
  as wanted and posts the removal request.  After any further events the removal is
  still wanted, the fault reports for the vdev are exactly one more than before, and
  every further completion for the vdev only signals its request.  Second, a completion
  for a vdev whose removal is already wanted, or one whose error is not \<^verbatim>\<open>EIO\<close>, only
  signals its request: no fault report and no removal request, whatever the fault
  indicator says.  Third, an orphan notification for the consumer of a vdev marks the
  removal as wanted and posts the removal request without a fault report.  So a vdev
  that was orphaned first gets no fault report at all.
\<close>

theorem removal_reported_at_most_once:
  "(bio_caller1 bp = Some zio \<and> vdev_geom_io_intr_error bp = EIO \<and> bio_to bp = Some to \<and>
    nth_opt (w_provider w) to = Some pp \<and> pp_error pp \<noteq> 0 \<and>
    \<not> vdev_remove_wanted (w_vdev w (io_vd zio)) \<longrightarrow>
    (\<exists>w1. vdev_geom_io_intr bp w = Some w1 \<and>
       w_trace w1 = w_trace w @ [ZFS_POST_REMOVE (io_spa zio) (io_vd zio),
          SPA_ASYNC_REQUEST (io_spa zio) SPA_ASYNC_REMOVE, ZIO_INTERRUPT (zio\<lparr>io_error := EIO\<rparr>)] \<and>
       vdev_remove_wanted (w_vdev w1 (io_vd zio)) \<and>
       (\<forall>evs w2. steps K evs w1 = Some w2 \<longrightarrow>
          vdev_remove_wanted (w_vdev w2 (io_vd zio)) \<and>
          fault_reports (io_vd zio) (w_trace w2) = fault_reports (io_vd zio) (w_trace w) + 1 \<and>
          (\<forall>bp' zio'. bio_caller1 bp' = Some zio' \<and> io_vd zio' = io_vd zio \<longrightarrow>
             map_option w_trace (vdev_geom_io_intr bp' w2) =
             Some (w_trace w2 @ [ZIO_INTERRUPT (zio'\<lparr>io_error := vdev_geom_io_intr_error bp'\<rparr>)]))))) \<and>
   (bio_caller1 bp = Some zio \<and>
    (vdev_remove_wanted (w_vdev v (io_vd zio)) \<or> vdev_geom_io_intr_error bp \<noteq> EIO) \<longrightarrow>
    map_option w_trace (vdev_geom_io_intr bp v) =
      Some (w_trace v @ [ZIO_INTERRUPT (zio\<lparr>io_error := vdev_geom_io_intr_error bp\<rparr>)])) \<and>
   (w_consumer w cp = Some c \<and> cp_private c = Some vd \<longrightarrow>
    vdev_geom_orphan cp w =
      Some (emit (SPA_ASYNC_REQUEST (vdev_spa (w_vdev w vd)) SPA_ASYNC_REMOVE)
             (upd_vdev vd (\<lambda>v. v\<lparr>vdev_remove_wanted := True\<rparr>) w)))"
proof (intro conjI impI)
  assume "bio_caller1 bp = Some zio \<and> vdev_geom_io_intr_error bp = EIO \<and> bio_to bp = Some to \<and>
    nth_opt (w_provider w) to = Some pp \<and> pp_error pp \<noteq> 0 \<and>
    \<not> vdev_remove_wanted (w_vdev w (io_vd zio))"
  then have h: "bio_caller1 bp = Some zio" "vdev_geom_io_intr_error bp = EIO" "bio_to bp = Some to"
    "nth_opt (w_provider w) to = Some pp" "pp_error pp \<noteq> 0"
    "\<not> vdev_remove_wanted (w_vdev w (io_vd zio))"
    by simp_all
  show "\<exists>w1. vdev_geom_io_intr bp w = Some w1 \<and>
       w_trace w1 = w_trace w @ [ZFS_POST_REMOVE (io_spa zio) (io_vd zio),
          SPA_ASYNC_REQUEST (io_spa zio) SPA_ASYNC_REMOVE, ZIO_INTERRUPT (zio\<lparr>io_error := EIO\<rparr>)] \<and>
       vdev_remove_wanted (w_vdev w1 (io_vd zio)) \<and>
       (\<forall>evs w2. steps K evs w1 = Some w2 \<longrightarrow>
          vdev_remove_wanted (w_vdev w2 (io_vd zio)) \<and>
          fault_reports (io_vd zio) (w_trace w2) = fault_reports (io_vd zio) (w_trace w) + 1 \<and>
          (\<forall>bp' zio'. bio_caller1 bp' = Some zio' \<and> io_vd zio' = io_vd zio \<longrightarrow>
             map_option w_trace (vdev_geom_io_intr bp' w2) =
             Some (w_trace w2 @ [ZIO_INTERRUPT (zio'\<lparr>io_error := vdev_geom_io_intr_error bp'\<rparr>)])))"
    by (rule removal_first_report[OF h])
next
  assume "bio_caller1 bp = Some zio \<and>
    (vdev_remove_wanted (w_vdev v (io_vd zio)) \<or> vdev_geom_io_intr_error bp \<noteq> EIO)"
  then show "map_option w_trace (vdev_geom_io_intr bp v) =
      Some (w_trace v @ [ZIO_INTERRUPT (zio\<lparr>io_error := vdev_geom_io_intr_error bp\<rparr>)])"
    by (intro io_intr_no_report) simp_all
next
  assume "w_consumer w cp = Some c \<and> cp_private c = Some vd"
  then have "w_consumer w cp = Some c" and "cp_private c = Some vd" by simp_all
  then show "vdev_geom_orphan cp w =
      Some (emit (SPA_ASYNC_REQUEST (vdev_spa (w_vdev w vd)) SPA_ASYNC_REMOVE)
             (upd_vdev vd (\<lambda>v. v\<lparr>vdev_remove_wanted := True\<rparr>) w))"
    by (rule orphan_effect)
qed

text \<open>
  The faulted system after an orphan notification for the consumer of vdev 0.
\<close>

definition ex_orphaned :: world where
  "ex_orphaned = emit (SPA_ASYNC_REQUEST ex_spa SPA_ASYNC_REMOVE)
     (upd_vdev 0 (\<lambda>v. v\<lparr>vdev_remove_wanted := True\<rparr>) ex_faulty)"

lemma ex_faulty_run:
  "map_option (\<lambda>w. length (w_trace w))
     (steps ex_K [EV_IO_INTR ex_write_failed, EV_IO_INTR ex_write_failed, EV_ORPHAN 0,
        EV_IO_INTR ex_write_failed] ex_faulty) = Some 6"
  by (simp add: vdev_defs ex_defs ex_faulty_def ex_write_def ex_write_failed_def geom_defs
      Let_def errno_defs)

theorem removal_reported_at_most_once_witness:
  "(\<exists>w1 w2. vdev_geom_io_intr ex_write_failed ex_faulty = Some w1 \<and>
     w_trace w1 = [ZFS_POST_REMOVE ex_spa 0, SPA_ASYNC_REQUEST ex_spa SPA_ASYNC_REMOVE,
        ZIO_INTERRUPT (ex_write\<lparr>io_error := EIO\<rparr>)] \<and>
     steps ex_K [EV_IO_INTR ex_write_failed, EV_ORPHAN 0, EV_IO_INTR ex_write_failed] w1 = Some w2 \<and>
     vdev_remove_wanted (w_vdev w2 0) \<and> fault_reports 0 (w_trace w2) = 1) \<and>
   vdev_geom_orphan 0 ex_faulty = Some ex_orphaned \<and>
   map_option w_trace (vdev_geom_io_intr ex_write_failed ex_orphaned) =
     Some [SPA_ASYNC_REQUEST ex_spa SPA_ASYNC_REMOVE, ZIO_INTERRUPT (ex_write\<lparr>io_error := EIO\<rparr>)]"
proof -
  have h: "bio_caller1 ex_write_failed = Some ex_write \<and>
      vdev_geom_io_intr_error ex_write_failed = EIO \<and> bio_to ex_write_failed = Some 0 \<and>
      nth_opt (w_provider ex_faulty) 0 = Some (ex_disk\<lparr>pp_error := ENXIO\<rparr>) \<and>
      pp_error (ex_disk\<lparr>pp_error := ENXIO\<rparr>) \<noteq> 0 \<and>
      \<not> vdev_remove_wanted (w_vdev ex_faulty (io_vd ex_write))"
    by (simp add: ex_write_failed_def g_alloc_bio_def vdev_geom_io_intr_error_def errno_defs
        ex_faulty_def nth_opt_def ex_defs ex_write_def)
  have g: "bio_caller1 ex_write_failed = Some ex_write \<and>
      (vdev_remove_wanted (w_vdev ex_orphaned (io_vd ex_write)) \<or>
       vdev_geom_io_intr_error ex_write_failed \<noteq> EIO)"
    by (simp add: ex_write_failed_def g_alloc_bio_def ex_orphaned_def ex_write_def upd_vdev_def
        emit_def)
  have f: "w_consumer ex_faulty 0 = Some ex_consumer \<and> cp_private ex_consumer = Some 0"
    by (simp add: ex_faulty_def ex_defs)
  note th = removal_reported_at_most_once[of ex_write_failed ex_write 0 ex_faulty
      "ex_disk\<lparr>pp_error := ENXIO\<rparr>" ex_K ex_orphaned 0 ex_consumer 0]
  from th[THEN conjunct1, rule_format, OF h] obtain w1 where
    i: "vdev_geom_io_intr ex_write_failed ex_faulty = Some w1" and
    t: "w_trace w1 = w_trace ex_faulty @ [ZFS_POST_REMOVE (io_spa ex_write) (io_vd ex_write),
        SPA_ASYNC_REQUEST (io_spa ex_write) SPA_ASYNC_REMOVE, ZIO_INTERRUPT (ex_write\<lparr>io_error := EIO\<rparr>)]" and
    l: "\<And>evs w2. steps ex_K evs w1 = Some w2 \<Longrightarrow>
        vdev_remove_wanted (w_vdev w2 (io_vd ex_write)) \<and>
        fault_reports (io_vd ex_write) (w_trace w2) =
        fault_reports (io_vd ex_write) (w_trace ex_faulty) + 1"
    by blast
  from ex_faulty_run i obtain w2 where
    r: "steps ex_K [EV_IO_INTR ex_write_failed, EV_ORPHAN 0, EV_IO_INTR ex_write_failed] w1 = Some w2"
    by (auto split: option.splits)
  from l[OF r] have "vdev_remove_wanted (w_vdev w2 0) \<and> fault_reports 0 (w_trace w2) = 1"
    by (simp add: ex_write_def ex_faulty_def ex_defs fault_reports_def)
  with i t r have a: "\<exists>w1 w2. vdev_geom_io_intr ex_write_failed ex_faulty = Some w1 \<and>
     w_trace w1 = [ZFS_POST_REMOVE ex_spa 0, SPA_ASYNC_REQUEST ex_spa SPA_ASYNC_REMOVE,
        ZIO_INTERRUPT (ex_write\<lparr>io_error := EIO\<rparr>)] \<and>
     steps ex_K [EV_IO_INTR ex_write_failed, EV_ORPHAN 0, EV_IO_INTR ex_write_failed] w1 = Some w2 \<and>
     vdev_remove_wanted (w_vdev w2 0) \<and> fault_reports 0 (w_trace w2) = 1"
    by (intro exI[of _ w1] exI[of _ w2]) (simp add: ex_write_def ex_faulty_def ex_defs)
  from th[THEN conjunct2, THEN conjunct2, rule_format, OF f]
  have b: "vdev_geom_orphan 0 ex_faulty = Some ex_orphaned"
    by (simp add: ex_orphaned_def ex_faulty_def ex_defs upd_vdev_def emit_def)
  from th[THEN conjunct2, THEN conjunct1, rule_format, OF g]
  have c: "map_option w_trace (vdev_geom_io_intr ex_write_failed ex_orphaned) =
     Some [SPA_ASYNC_REQUEST ex_spa SPA_ASYNC_REMOVE, ZIO_INTERRUPT (ex_write\<lparr>io_error := EIO\<rparr>)]"
    by (simp add: ex_orphaned_def ex_faulty_def ex_defs emit_def upd_vdev_def ex_write_failed_def
        g_alloc_bio_def vdev_geom_io_intr_error_def)
  from a b c show ?thesis by simp
qed

text \<open>
  An orphan notification first, then two completions with \<^verbatim>\<open>EIO\<close> while the fault
  indicator of the device is set: the removal is requested once, by the notification,
  and no fault report is issued.
\<close>

theorem orphan_then_fault_no_report_counterexample:
  "vdev_geom_io_intr_error ex_write_failed = EIO \<and>
   map_option pp_error (nth_opt (w_provider ex_faulty) 0) = Some ENXIO \<and> ENXIO \<noteq> 0 \<and>
   map_option (\<lambda>w. (w_trace w, fault_reports 0 (w_trace w)))
     (steps ex_K [EV_ORPHAN 0, EV_IO_INTR ex_write_failed, EV_IO_INTR ex_write_failed] ex_faulty) =
   Some ([SPA_ASYNC_REQUEST ex_spa SPA_ASYNC_REMOVE,
          ZIO_INTERRUPT (ex_write\<lparr>io_error := EIO\<rparr>), ZIO_INTERRUPT (ex_write\<lparr>io_error := EIO\<rparr>)], 0)"
  by (simp add: vdev_defs ex_defs ex_faulty_def ex_write_def ex_write_failed_def geom_defs
      Let_def errno_defs fault_reports_def)

subsection \<open>The alignment shift\<close>

lemma highbit_power2: "highbit (2 ^ j) = Suc j"
proof (induction j)
  case 0
  show ?case by (simp add: highbit.simps)
next
  case (Suc j)
  show ?case by (subst highbit.simps) (simp add: Suc)
qed

lemma ashift_of_power2:
  assumes "sectorsize = 2 ^ k" and "SPA_MINBLOCKSIZE K = 2 ^ m" and "k < 64" and "m < 64"
  shows "ashift_of K sectorsize = max k m"
proof -
  have "max sectorsize (SPA_MINBLOCKSIZE K) = 2 ^ max k m"
    unfolding assms(1,2) by (simp add: max_def)
  moreover have "int (max k m) < 2 ^ 64"
  proof -
    have "int (max k m) < 64" using assms(3,4) by simp
    also have "(64::int) < 2 ^ 64" by simp
    finally show ?thesis .
  qed
  ultimately show ?thesis by (simp add: ashift_of_def highbit_power2)
qed

text \<open>
  Claim C6.  After a successful open that bound the vdev to a device whose sector size
  is a power of two, with the minimum block size of the pool a power of two as well,
  the ashift written by open is the base-2 logarithm of the larger of the two.  No
  sequence of events without an open of this vdev changes it.
\<close>

theorem open_ashift:
  assumes "vdev_geom_open K vd w = Some (0, w')"
    and "vdev_tsd (w_vdev w' vd) = Some c" and "provider_of c w' = Some pp"
    and "pp_sectorsize pp = 2 ^ k" and "SPA_MINBLOCKSIZE K = 2 ^ m" and "k < 64" and "m < 64"
  shows "real (out_ashift (w_out w' vd)) = log 2 (real (max (pp_sectorsize pp) (SPA_MINBLOCKSIZE K))) \<and>
     out_ashift (w_out w' vd) = max k m \<and>
     (\<forall>evs w''. steps K evs w' = Some w'' \<and> EV_OPEN vd \<notin> set evs \<longrightarrow>
        out_ashift (w_out w'' vd) = out_ashift (w_out w' vd))"
proof -
  from assms(1) have a: "out_ashift (w_out w' vd) = ashift_of K (pp_sectorsize pp)"
  proof (cases rule: vdev_geom_open_cases)
    case bad_path
    then show ?thesis by (simp add: EINVAL_def)
  next
    case (failed cp w1 w2)
    from open_check_None[OF failed(2)] show ?thesis by simp
  next
    case (opened cp w1 c' e0 w2 pp')
    from opened(5) assms(2) have "c' = c" by (simp add: upd_vdev_def)
    moreover from opened(5) have "provider_of c w' = provider_of c w2"
      by (simp add: provider_of_def upd_vdev_def)
    ultimately have "pp' = pp" using opened(3) assms(3) by simp
    then show ?thesis using opened(5) by (simp add: upd_vdev_def)
  qed
  have b: "out_ashift (w_out w' vd) = max k m"
    unfolding a by (rule ashift_of_power2[OF assms(4-7)])
  have "max (pp_sectorsize pp) (SPA_MINBLOCKSIZE K) = 2 ^ max k m"
    unfolding assms(4,5) by (simp add: max_def)
  then have c: "log 2 (real (max (pp_sectorsize pp) (SPA_MINBLOCKSIZE K))) = real (max k m)"
    by (simp add: log_nat_power)
  have d: "out_ashift (w_out w'' vd) = out_ashift (w_out w' vd)"
    if "steps K evs w' = Some w''" "EV_OPEN vd \<notin> set evs" for evs w''
    using steps_effect[OF that(1), of vd] that(2) unfolding run_ok_def by simp
  show ?thesis using b c d by auto
qed


lemma ex_open_then_run:
  "map_option (\<lambda>w. out_ashift (w_out w 0))
     (steps ex_K [EV_OPEN 0, EV_IO_START ex_flush, EV_OPEN 1, EV_CLOSE 1]
        (ex_flags False False ex_world)) = Some 9"
  by (simp add: vdev_defs ex_defs ex_flags_def ex_flush_def geom_defs Let_def
      vdev_geom_io_loop.simps upt_conv_Cons highbit_512 retry_5)


theorem open_ashift_witness:
  "\<exists>w' w''. vdev_geom_open ex_K 0 (ex_flags False False ex_world) = Some (0, w') \<and>
     real (out_ashift (w_out w' 0)) = log 2 (real (max (512::nat) 512)) \<and>
     out_ashift (w_out w' 0) = 9 \<and>
     steps ex_K [EV_IO_START ex_flush, EV_OPEN 1, EV_CLOSE 1] w' = Some w'' \<and>
     out_ashift (w_out w'' 0) = 9"
proof -
  let ?evs = "[EV_IO_START ex_flush, EV_OPEN 1, EV_CLOSE 1]"
  obtain w' where o: "vdev_geom_open ex_K 0 (ex_flags False False ex_world) = Some (0, w')"
    and t: "vdev_tsd (w_vdev w' 0) = Some 0" and c: "w_consumer w' 0 = Some ex_consumer"
    and pr: "w_provider w' = [ex_disk]"
    by (rule ex_open_succeeds)
  from c pr have p: "provider_of 0 w' = Some ex_disk"
    by (simp add: provider_of_def ex_consumer_def nth_opt_def)
  have s: "pp_sectorsize ex_disk = 2 ^ 9" and m: "SPA_MINBLOCKSIZE ex_K = 2 ^ 9"
    by (simp_all add: ex_disk_def ex_K_def)
  from ex_open_then_run o obtain w'' where r: "steps ex_K ?evs w' = Some w''"
    by (auto split: option.splits)
  have n: "EV_OPEN 0 \<notin> set ?evs" by simp
  have l: "(9::nat) < 64" by simp
  note th = open_ashift[OF o t p s m l l]
  from th have
    a: "real (out_ashift (w_out w' 0)) = log 2 (real (max (pp_sectorsize ex_disk) (SPA_MINBLOCKSIZE ex_K)))"
    and b: "out_ashift (w_out w' 0) = max 9 9"
    by simp_all
  from th have "steps ex_K ?evs w' = Some w'' \<and> EV_OPEN 0 \<notin> set ?evs \<longrightarrow>
        out_ashift (w_out w'' 0) = out_ashift (w_out w' 0)"
    by (elim conjE allE)
  with r n b have "out_ashift (w_out w'' 0) = 9" by simp
  with a b o r show ?thesis by (simp add: ex_disk_def ex_K_def)
qed

subsection \<open>Sector sizes that open accepts\<close>





subsection \<open>Open that fails after the device was found\<close>

lemma g_access_release:
  assumes "w_consumer w cp = Some c" and "cp_provider c \<noteq> None"
    and "dr \<le> 0" and "dw \<le> 0" and "de \<le> 0"
  shows "g_access cp dr dw de w =
     Some (0, upd_consumer cp (\<lambda>c. c\<lparr>acr := acr c + dr, acw := acw c + dw, ace := ace c + de\<rparr>) w)"
  using assms by (auto simp: g_access_def Let_def)

lemma vdev_geom_detach_returns:
  assumes "w_consumer w cp = Some c" and "cp_provider c \<noteq> None"
  shows "\<exists>w'. vdev_geom_detach cp w = Some w'"
proof -
  let ?w0 = "case cp_private c of None \<Rightarrow> emit (ZFS_LOG LOG_closing_access) w
        | Some vd \<Rightarrow> upd_consumer cp (\<lambda>c. c\<lparr>cp_private := None\<rparr>)
            (upd_vdev vd (\<lambda>v. v\<lparr>vdev_tsd := None\<rparr>) (emit (ZFS_LOG LOG_closing_access) w))"
  obtain c0 where c0: "w_consumer ?w0 cp = Some c0" "cp_provider c0 \<noteq> None"
    using assms by (cases "cp_private c") (auto simp: emit_def upd_consumer_def upd_vdev_def)
  let ?w1 = "upd_consumer cp (\<lambda>c. c\<lparr>acr := acr c + - 1, acw := acw c + 0, ace := ace c + - 1\<rparr>) ?w0"
  have a1: "g_access cp (- 1) 0 (- 1) ?w0 = Some (0, ?w1)"
    by (rule g_access_release[OF c0]) simp_all
  obtain c1 where c1: "w_consumer ?w1 cp = Some c1" "cp_provider c1 \<noteq> None"
    using c0 by (auto simp: upd_consumer_def)
  have c1': "w_consumer (emit (ZFS_LOG LOG_destroyed_consumer) ?w1) cp = Some c1"
    using c1 by (simp add: emit_def)
  have a2: "0 < acw c1 \<Longrightarrow> \<exists>w2. g_access cp 0 (- acw c1) 0 (emit (ZFS_LOG LOG_destroyed_consumer) ?w1) = Some (0, w2)"
    using g_access_release[OF c1' c1(2), of 0 "- acw c1" 0] by auto
  have d: "vdev_geom_detach cp w =
      (if acr c1 = 0 \<and> ace c1 = 0
       then (if 0 < acw c1 then g_access cp 0 (- acw c1) 0 (emit (ZFS_LOG LOG_destroyed_consumer) ?w1)
             else Some (0, emit (ZFS_LOG LOG_destroyed_consumer) ?w1)) \<bind>
            (\<lambda>(_, w). Some (g_destroy_consumer cp (g_detach cp w)))
       else Some ?w1) \<bind>
      (\<lambda>w. if w_geom w = Some [] then Some (g_wither_geom (emit (ZFS_LOG LOG_destroyed_geom) w))
            else Some w)"
    unfolding vdev_geom_detach_def Let_def
    by (simp only: assms(1) a1 c1(1) Option.bind.simps prod.case)
  show ?thesis
  proof -
    consider "acr c1 \<noteq> 0" | "ace c1 \<noteq> 0" | "acr c1 = 0" "ace c1 = 0" "\<not> 0 < acw c1"
      | "acr c1 = 0" "ace c1 = 0" "0 < acw c1" by blast
    then show ?thesis
    proof cases
      case 1
      then show ?thesis unfolding d by simp
    next
      case 2
      then show ?thesis unfolding d by simp
    next
      case 3
      then show ?thesis unfolding d by simp
    next
      case 4
      from a2[OF 4(3)] obtain w2 where
        "g_access cp 0 (- acw c1) 0 (emit (ZFS_LOG LOG_destroyed_consumer) ?w1) = Some (0, w2)" ..
      with 4 show ?thesis unfolding d by simp
    qed
  qed
qed

lemma provider_of_consumer:
  "provider_of cp w = Some pp \<Longrightarrow> \<exists>c. w_consumer w cp = Some c \<and> cp_provider c \<noteq> None"
  by (auto simp: provider_of_def bind_eq_Some_conv)

lemma frame_tsd_stays_None:
  "frame P w w' \<Longrightarrow> vdev_tsd (w_vdev w vd) = None \<Longrightarrow> vdev_tsd (w_vdev w' vd) = None"
  unfolding frame_def vdev_kept_def by metis

lemma open_retry_all_fail:
  assumes "w_consumer w cp = Some c" and "cp_provider c \<noteq> None"
    and "n \<le> length (w_access w)" and "\<forall>e\<in>set (take n (w_access w)). e \<noteq> 0" and "0 < n"
  shows "\<exists>w'. vdev_geom_open_retry n cp error w = Some (w_access w ! (n - 1), w') \<and>
     w_consumer w' cp = Some c \<and> w_access w ! (n - 1) \<noteq> 0"
  using assms
proof (induction n arbitrary: error w)
  case 0
  then show ?case by simp
next
  case (Suc n)
  from Suc.prems(3) obtain e es where es: "w_access w = e # es" by (cases "w_access w") auto
  with Suc.prems(4) have e: "e \<noteq> 0" by simp
  let ?w1 = "w\<lparr>w_access := es\<rparr>"
  have a: "g_access cp 0 1 0 w = Some (e, ?w1)"
    using Suc.prems(1,2) es e by (auto simp: g_access_def Let_def next_answer_def)
  show ?case
  proof (cases n)
    case 0
    then show ?thesis using a e es Suc.prems(1) by (simp add: emit_def)
  next
    case (Suc m)
    let ?w2 = "emit TSLEEP ?w1"
    have c2: "w_consumer ?w2 cp = Some c" using Suc.prems(1) by (simp add: emit_def)
    have l: "n \<le> length (w_access ?w2)" using Suc.prems(3) es by (simp add: emit_def)
    have f: "\<forall>e\<in>set (take n (w_access ?w2)). e \<noteq> 0"
      using Suc.prems(4) es by (simp add: emit_def)
    have n: "0 < n" using Suc by simp
    from Suc.IH[OF c2 Suc.prems(2) l f n, of e] obtain w' where
      "vdev_geom_open_retry n cp e ?w2 = Some (w_access ?w2 ! (n - 1), w')"
      "w_consumer w' cp = Some c" "w_access ?w2 ! (n - 1) \<noteq> 0"
      by blast
    then show ?thesis using a e es Suc by (simp add: emit_def)
  qed
qed





text \<open>
  The path of a vdev as \<^verbatim>\<open>vdev_geom_open\<close> wants it: present and starting with a slash.
\<close>

definition path_ok :: "vdev_t \<Rightarrow> bool" where
  "path_ok v \<longleftrightarrow> (case vdev_path v of None \<Rightarrow> False | Some path \<Rightarrow> path \<noteq> [] \<and> hd path = CHR ''/'')"

lemma open_after_find:
  assumes "path_ok (w_vdev w vd)"
    and "vdev_geom_open_find K vd (upd_vdev vd (\<lambda>v. v\<lparr>vdev_tsd := None\<rparr>) w) = Some (cp, w1)"
    and "vdev_geom_open_check K vd cp w1 = Some ((None, e), w2)"
  shows "vdev_geom_open K vd w = Some (e, upd_vdev vd (\<lambda>v. v\<lparr>vs_aux := VDEV_AUX_OPEN_FAILED\<rparr>) w2)"
  using assms by (auto simp: vdev_geom_open_def path_ok_def Let_def split: option.splits)

lemma find_tsd_None:
  assumes "vdev_geom_open_find K vd (upd_vdev vd (\<lambda>v. v\<lparr>vdev_tsd := None\<rparr>) w) = Some (cp, w1)"
  shows "vdev_tsd (w_vdev w1 vd) = None" and "frame benign w w1"
proof -
  have "frame benign w (upd_vdev vd (\<lambda>v. v\<lparr>vdev_tsd := None\<rparr>) w)"
    by (intro frame_benign_intros frame_refl)
  with assms show f: "frame benign w w1" by (rule frame_open_find)
  have "frame benign (upd_vdev vd (\<lambda>v. v\<lparr>vdev_tsd := None\<rparr>) w) w1"
    using assms by (rule frame_open_find) simp
  then show "vdev_tsd (w_vdev w1 vd) = None"
    by (rule frame_tsd_stays_None) (simp add: upd_vdev_def)
qed







definition ex_busy :: world where
  "ex_busy = ex_world\<lparr>w_access := [0, 0, 0, 16, 16, 16, 16, 16]\<rparr>"










text \<open>
  Claim C8.  Open of a vdev of a pool opened for writing, whose device was found and
  has a good sector size, asks for the write claim up to five times.  When all five
  attempts fail, open fails with the error of the last attempt, the handle of the vdev
  is null and the auxiliary state is \<^verbatim>\<open>VDEV_AUX_OPEN_FAILED\<close>.
\<close>

theorem open_write_claim_fails:
  assumes "path_ok (w_vdev w vd)"
    and "vdev_geom_open_find K vd (upd_vdev vd (\<lambda>v. v\<lparr>vdev_tsd := None\<rparr>) w) = Some (Some c, w1)"
    and "provider_of c w1 = Some pp"
    and "pp_sectorsize pp \<le> VDEV_PAD_SIZE K" and "ISP2 (pp_sectorsize pp)"
    and "w_consumer w1 c = Some co" and "acw co = 0"
    and "spa_mode (vdev_spa (w_vdev w vd)) AND FWRITE \<noteq> 0"
    and "5 \<le> length (w_access w1)" and "\<forall>e\<in>set (take 5 (w_access w1)). e \<noteq> 0"
  shows "\<exists>w'. vdev_geom_open K vd w = Some (w_access w1 ! 4, w') \<and> w_access w1 ! 4 \<noteq> 0 \<and>
     vdev_tsd (w_vdev w' vd) = None \<and> vs_aux (w_vdev w' vd) = VDEV_AUX_OPEN_FAILED"
proof -
  let ?e = "w_access w1 ! 4"
  have fr: "frame benign w w1" using assms(2) by (rule find_tsd_None(2))
  then have spa: "vdev_spa (w_vdev w1 vd) = vdev_spa (w_vdev w vd)"
    by (simp add: frame_def vdev_kept_def)
  from provider_of_consumer[OF assms(3)] assms(6) have at: "cp_provider co \<noteq> None" by auto
  from open_retry_all_fail[OF assms(6) at assms(9,10), of 0] obtain wr where
    r: "vdev_geom_open_retry 5 c 0 w1 = Some (?e, wr)" and cr: "w_consumer wr c = Some co"
    and ne: "?e \<noteq> 0"
    by auto
  have "w_consumer (emit (ZFS_LOG (WARNING_unable_to_open_for_writing ?e)) wr) c = Some co"
    using cr by (simp add: emit_def)
  from vdev_geom_detach_returns[OF this at] obtain w2 where
    d: "vdev_geom_detach c (emit (ZFS_LOG (WARNING_unable_to_open_for_writing ?e)) wr) = Some w2" ..
  have ch: "vdev_geom_open_check K vd (Some c) w1 = Some ((None, ?e), w2)"
    using assms(3,4,5,6,7,8) spa r ne d by (simp add: vdev_geom_open_check_def)
  have o: "vdev_geom_open K vd w = Some (?e, upd_vdev vd (\<lambda>v. v\<lparr>vs_aux := VDEV_AUX_OPEN_FAILED\<rparr>) w2)"
    using assms(1,2) ch by (rule open_after_find)
  have "frame quiet w1 w2" using ch by (rule frame_open_check) simp
  then have "vdev_tsd (w_vdev w2 vd) = None"
    using find_tsd_None(1)[OF assms(2)] by (rule frame_tsd_stays_None)
  then show ?thesis using o ne by (simp add: upd_vdev_def)
qed

lemma ex_busy_find:
  "map_option (\<lambda>(cp, w). (cp, provider_of 0 w, w_consumer w 0, w_access w))
     (vdev_geom_open_find ex_K 0 (upd_vdev 0 (\<lambda>v. v\<lparr>vdev_tsd := None\<rparr>) ex_busy)) =
   Some (Some 0, Some ex_disk, Some (ex_consumer\<lparr>acw := 0\<rparr>), [16, 16, 16, 16, 16])"
  by (simp add: vdev_defs ex_defs ex_busy_def geom_defs Let_def vdev_geom_io_loop.simps
      upt_conv_Cons)

theorem open_write_claim_fails_witness:
  "\<exists>w'. vdev_geom_open ex_K 0 ex_busy = Some (16, w') \<and> vdev_tsd (w_vdev w' 0) = None \<and>
     vs_aux (w_vdev w' 0) = VDEV_AUX_OPEN_FAILED"
proof -
  from ex_busy_find obtain w1 where
    f: "vdev_geom_open_find ex_K 0 (upd_vdev 0 (\<lambda>v. v\<lparr>vdev_tsd := None\<rparr>) ex_busy) = Some (Some 0, w1)"
    and p: "provider_of 0 w1 = Some ex_disk"
    and c: "w_consumer w1 0 = Some (ex_consumer\<lparr>acw := 0\<rparr>)"
    and a: "w_access w1 = [16, 16, 16, 16, 16]"
    by (auto split: option.splits)
  have h1: "path_ok (w_vdev ex_busy 0)" by (simp add: path_ok_def ex_busy_def ex_defs)
  have h4: "pp_sectorsize ex_disk \<le> VDEV_PAD_SIZE ex_K" and h5: "ISP2 (pp_sectorsize ex_disk)"
    by (simp_all add: ex_disk_def ex_K_def ISP2_def)
  have h7: "acw (ex_consumer\<lparr>acw := 0\<rparr>) = 0" by simp
  have h8: "spa_mode (vdev_spa (w_vdev ex_busy 0)) AND FWRITE \<noteq> 0"
    by (simp add: ex_busy_def ex_defs FWRITE_def)
  have h9: "5 \<le> length (w_access w1)" and h10: "\<forall>e\<in>set (take 5 (w_access w1)). e \<noteq> 0"
    by (simp_all add: a)
  from open_write_claim_fails[OF h1 f p h4 h5 c h7 h8 h9 h10] show ?thesis
    by (simp add: a)
qed


subsection \<open>A bad sector size under the stored path\<close>

text \<open>
  The provider a consumer is attached to, if the consumer exists.
\<close>

definition attached :: "nat \<Rightarrow> world \<Rightarrow> nat option option" where
  "attached c w = map_option cp_provider (w_consumer w c)"



lemma attached_emit [simp]: "attached c (emit e w) = attached c w"
  by (simp add: attached_def emit_def)










subsection \<open>Closing twice\<close>

text \<open>
  Close of a vdev whose handle is null changes nothing.  Close of a vdev whose consumer
  refers back to it nulls the handle, so that a second close changes nothing.
\<close>

lemma close_null_handle:
  "vdev_tsd (w_vdev w vd) = None \<Longrightarrow> vdev_geom_close vd w = Some w"
  by (simp add: vdev_geom_close_def)

lemma detach_clears_private:
  assumes "vdev_geom_detach cp w = Some w'" and "w_consumer w cp = Some c"
    and "cp_private c = Some vd"
  shows "vdev_tsd (w_vdev w' vd) = None"
proof -
  let ?w0 = "upd_consumer cp (\<lambda>c. c\<lparr>cp_private := None\<rparr>)
            (upd_vdev vd (\<lambda>v. v\<lparr>vdev_tsd := None\<rparr>) (emit (ZFS_LOG LOG_closing_access) w))"
  have t0: "vdev_tsd (w_vdev ?w0 vd) = None" by (simp add: upd_consumer_def upd_vdev_def)
  from assms(1) obtain c' e w1 c1 w2 where
    c: "w_consumer w cp = Some c'" and
    a1: "g_access cp (- 1) 0 (- 1)
       (case cp_private c' of None \<Rightarrow> emit (ZFS_LOG LOG_closing_access) w
        | Some vd \<Rightarrow> upd_consumer cp (\<lambda>c. c\<lparr>cp_private := None\<rparr>)
            (upd_vdev vd (\<lambda>v. v\<lparr>vdev_tsd := None\<rparr>) (emit (ZFS_LOG LOG_closing_access) w))) =
     Some (e, w1)" and
    c1: "w_consumer w1 cp = Some c1" and
    w2: "(if acr c1 = 0 \<and> ace c1 = 0
      then (if 0 < acw c1 then g_access cp 0 (- acw c1) 0 (emit (ZFS_LOG LOG_destroyed_consumer) w1)
            else Some (0, emit (ZFS_LOG LOG_destroyed_consumer) w1)) \<bind>
           (\<lambda>(_, w). Some (g_destroy_consumer cp (g_detach cp w)))
      else Some w1) = Some w2" and
    w': "w' = (if w_geom w2 = Some [] then g_wither_geom (emit (ZFS_LOG LOG_destroyed_geom) w2) else w2)"
    by (rule vdev_geom_detach_cases)
  from c assms(2,3) a1 have a1': "g_access cp (- 1) 0 (- 1) ?w0 = Some (e, w1)" by simp
  have "frame quiet ?w0 w1" using a1' by (rule frame_g_access) simp
  moreover have "frame quiet w1 w2"
    using w2
    apply (clarsimp simp: bind_eq_Some_conv split: if_splits)
      apply ((assumption | erule frame_g_access | rule frame_intros frame_refl | simp)+)
    done
  moreover have "frame quiet w2 w'" unfolding w' by (auto intro!: frame_intros)
  ultimately have "frame quiet ?w0 w'" by (blast intro: frame_trans)
  then show ?thesis using t0 by (rule frame_tsd_stays_None)
qed

lemma close_own_consumer:
  assumes "vdev_tsd (w_vdev w vd) = Some cp" and "w_consumer w cp = Some c"
    and "cp_private c = Some vd" and "cp_provider c \<noteq> None"
  shows "\<exists>w'. vdev_geom_close vd w = Some w' \<and> vdev_tsd (w_vdev w' vd) = None \<and>
     vdev_geom_close vd w' = Some w'"
proof -
  from vdev_geom_detach_returns[OF assms(2,4)] obtain w' where
    d: "vdev_geom_detach cp w = Some w'" ..
  from detach_clears_private[OF d assms(2,3)] have "vdev_tsd (w_vdev w' vd) = None" .
  then show ?thesis using d assms(1) by (simp add: vdev_geom_close_def)
qed

text \<open>
  Claim C9.  Two vdevs opened on the same provider share one consumer, and
  \<^verbatim>\<open>vdev_geom_attach\<close> leaves the back reference of the consumer on the vdev opened
  last.  Close of the first vdev then nulls the handle of the second one and leaves
  its own: after open of vdev 0, open of vdev 1 and close of vdev 0, the handle of
  vdev 0 is still consumer 0, the handle of vdev 1 is null and the consumer keeps one
  read claim.  A second close of vdev 0 is not a no-op: it releases that claim and
  destroys the consumer.
\<close>

theorem close_twice_shared_consumer:
  "map_option (\<lambda>w. (vdev_tsd (w_vdev w 0), vdev_tsd (w_vdev w 1), map_option acr (w_consumer w 0)))
     (steps ex_K [EV_OPEN 0, EV_OPEN 1, EV_CLOSE 0] ex_world) = Some (Some 0, None, Some 1) \<and>
   map_option (\<lambda>w. (vdev_tsd (w_vdev w 0), vdev_tsd (w_vdev w 1), map_option acr (w_consumer w 0)))
     (steps ex_K [EV_OPEN 0, EV_OPEN 1, EV_CLOSE 0, EV_CLOSE 0] ex_world) = Some (Some 0, None, None)"
  by (simp add: vdev_defs ex_defs geom_defs Let_def vdev_geom_io_loop.simps upt_conv_Cons
      highbit_512 retry_5)

end
